theory Spec2Isabelle
  imports Complex_Main "HOL-Library.Sublist" "HOL-Library.Multiset" "HOL-Library.Word"
    "HOL-Library.Log_Nat"
begin

unbundle bit_operations_syntax

section \<open>Link records and the collection\<close>

text \<open>
  The model follows \<open>index.js\<close> and \<open>middleware/auth.js\<close>: the helper functions, the
  handlers of \<open>/new\<close>, \<open>/r/:slug\<close>, \<open>/delete.py\<close>, \<open>/linksdata\<close> and \<open>/stats/:slug\<close>,
  and the operations of the database that they call. A request here is one that the rate
  limiters in front of the handlers let through, and the database is reachable: the
  \<open>catch\<close> branches for other storage failures are not modelled. Strings are lists of
  characters with code points below 256.

  The schema \<open>urlSchema\<close> has seven fields; every stored document also carries the
  \<open>_id\<close> the driver assigns, by which \<open>save()\<close> of a loaded document addresses its
  update. \<open>visits\<close> is a JavaScript Number that starts at 0 and is only ever set to a
  loaded value plus 1, so it is modelled as a natural number (exact below \<open>2^53\<close>).
  \<open>createdAt\<close> is a Date, modelled as milliseconds since the epoch.
\<close>

record doc =
  doc_id :: nat
  originalUrl :: string
  shortSlug :: string
  title :: string
  description :: string
  visits :: nat
  createdAt :: nat
  isActive :: bool

text \<open>
  The collection is the list of its documents in insertion order. Beside it the state
  keeps the list of the database calls (\<open>findOne\<close>, \<open>save\<close>, \<open>countDocuments\<close>,
  \<open>find\<close>, \<open>aggregate\<close>) issued so far, so that "before any storage access" and "at most five
  existence checks" are statements about the state.
\<close>

datatype dbcall = FindOne | Save | CountDocuments | Find | Aggregate

record world =
  coll :: "doc list"
  calls :: "dbcall list"

text \<open>
  \<open>String.prototype.trim\<close> removes white space and line terminators from both ends; among
  the characters below 256 these are TAB, LF, VT, FF, CR, SPACE and NBSP. The schema
  declares \<open>originalUrl\<close>, \<open>shortSlug\<close>, \<open>title\<close> and \<open>description\<close> with \<open>trim: true\<close>:
  the setter trims the value when a document is built, and the value of a filter on
  such a field when a query is cast.
\<close>

definition js_whitespace :: "char \<Rightarrow> bool" where
  "js_whitespace c = (of_char c \<in> {9, 10, 11, 12, 13, 32, 160 :: nat})"

definition js_trim :: "string \<Rightarrow> string" where
  "js_trim s = rev (dropWhile js_whitespace (rev (dropWhile js_whitespace s)))"

text \<open>
  \<open>originalUrl\<close> and \<open>shortSlug\<close> are \<open>required\<close>: the validators that \<open>save()\<close> runs
  reject a document in which one of them is empty.
\<close>

definition valid_doc :: "doc \<Rightarrow> bool" where
  "valid_doc d = (originalUrl d \<noteq> [] \<and> shortSlug d \<noteq> [])"

text \<open>
  Both \<open>_id\<close> and \<open>shortSlug\<close> carry a unique index (\<open>unique: true\<close> in the schema). A
  collection that only \<open>save()\<close> has written has unique ids, unique slugs, valid
  documents and trimmed slugs: it is well formed.
\<close>

definition wf_store :: "doc list \<Rightarrow> bool" where
  "wf_store ds =
     (distinct (map doc_id ds) \<and> distinct (map shortSlug ds) \<and> list_all valid_doc ds \<and>
      list_all (\<lambda>d. js_trim (shortSlug d) = shortSlug d) ds)"

datatype dberror = DuplicateKey | ValidationError | BadValue

definition logcall :: "dbcall \<Rightarrow> world \<Rightarrow> world" where
  "logcall c w = w\<lparr>calls := calls w @ [c]\<rparr>"

text \<open>
  \<open>Url.findOne(filter)\<close>: the first document that satisfies the filter, or null. The
  filter is given here as it reaches the database, that is after the cast of its values
  by the schema: every handler that filters on \<open>shortSlug\<close> compares the stored slug
  with the trimmed value, \<open>js_trim slug\<close>.
\<close>

definition findOne :: "(doc \<Rightarrow> bool) \<Rightarrow> world \<Rightarrow> doc option \<times> world" where
  "findOne flt w = (find flt (coll w), logcall FindOne w)"

text \<open>
  \<open>save()\<close> of a document loaded by \<open>findOne\<close> and then modified: the document is
  validated, and the modified paths are written with \<open>$set\<close> to the document whose \<open>_id\<close>
  is the loaded one's. \<open>upd\<close> is that \<open>$set\<close>.
\<close>

definition write_loaded :: "doc \<Rightarrow> (doc \<Rightarrow> doc) \<Rightarrow> world \<Rightarrow> world" where
  "write_loaded d upd w =
     logcall Save (w\<lparr>coll := map (\<lambda>x. if doc_id x = doc_id d then upd x else x) (coll w)\<rparr>)"

definition save_loaded :: "doc \<Rightarrow> (doc \<Rightarrow> doc) \<Rightarrow> world \<Rightarrow> (dberror + unit) \<times> world" where
  "save_loaded d upd w =
     (if \<not> valid_doc (upd d) then (Inl ValidationError, logcall Save w)
      else (Inr (), write_loaded d upd w))"

section \<open>Parameters of a request\<close>

text \<open>
  A query or body parameter is absent or a string. \<open>if (x)\<close> takes the branch only for a
  present, non-empty string: \<open>truthy\<close> returns that string.
\<close>

fun truthy :: "string option \<Rightarrow> string option" where
  "truthy None = None"
| "truthy (Some s) = (if s = [] then None else Some s)"

text \<open>\<open>x || ''\<close>\<close>

fun or_empty :: "string option \<Rightarrow> string" where
  "or_empty None = []"
| "or_empty (Some s) = s"

section \<open>Responses\<close>

text \<open>
  The numbers of the listing handler are JavaScript Numbers, that is doubles. The ones
  that occur are NaN, the two infinities, and doubles whose value is an integer (the two
  zeros are not told apart: both are written \<open>0\<close> in JSON, where NaN and the infinities are written \<open>null\<close>).
\<close>

datatype jsnum = NaN | Num int | PosInf | NegInf

record created_data =
  cd_originalUrl :: string
  cd_shortUrl :: string
  cd_shortSlug :: string
  cd_title :: string
  cd_description :: string
  cd_createdAt :: nat

record created_links =
  cl_access :: string
  cl_delete :: string
  cl_stats :: string

record deleted_data =
  dd_slug :: string
  dd_originalUrl :: string
  dd_deletedAt :: nat

record stats_data =
  sd_originalUrl :: string
  sd_shortSlug :: string
  sd_shortUrl :: string
  sd_title :: string
  sd_description :: string
  sd_visits :: nat
  sd_isActive :: bool
  sd_createdAt :: nat
  sd_lastAccessed :: "nat option"

record links_data =
  ld_urls :: "doc list"
  ld_page :: jsnum
  ld_limit :: jsnum
  ld_total :: nat
  ld_totalPages :: "int option"
  ld_totalUrls :: nat
  ld_activeUrls :: nat
  ld_inactiveUrls :: int
  ld_totalVisits :: nat
  ld_averageVisits :: rat

datatype body =
    Failure string
  | Created created_data "created_links option"
  | Deleted string deleted_data
  | Stats stats_data
  | Links links_data

datatype response = Json nat body | Redirect nat string

fun status :: "response \<Rightarrow> nat" where
  "status (Json n b) = n"
| "status (Redirect n u) = n"

text \<open>Process configuration: \<open>process.env.ADMIN_KEY\<close> (possibly unset) and \<open>APP_DOMAIN\<close>.\<close>

record config =
  ADMIN_KEY :: "string option"
  APP_DOMAIN :: string

section \<open>Redirect, soft delete, statistics of one link\<close>

text \<open>\<open>app.get('/r/:slug')\<close>\<close>

definition get_r :: "string \<Rightarrow> world \<Rightarrow> response \<times> world" where
  "get_r slug w =
     (case findOne (\<lambda>d. shortSlug d = js_trim slug \<and> isActive d) w of
        (None, w1) \<Rightarrow> (Json 404 (Failure ''Short URL not found''), w1)
      | (Some urlData, w1) \<Rightarrow>
          (let n = visits urlData + 1
           in case save_loaded urlData (\<lambda>x. x\<lparr>visits := n\<rparr>) w1 of
                (Inl e, w2) \<Rightarrow> (Json 500 (Failure ''Failed to redirect''), w2)
              | (Inr u, w2) \<Rightarrow> (Redirect 301 (originalUrl urlData), w2)))"

text \<open>\<open>app.get('/delete.py')\<close>; \<open>now\<close> is the value of \<open>new Date()\<close>.\<close>

definition get_delete_py :: "nat \<Rightarrow> string option \<Rightarrow> world \<Rightarrow> response \<times> world" where
  "get_delete_py now slug w =
     (case truthy slug of
        None \<Rightarrow> (Json 400 (Failure ''Slug parameter is required''), w)
      | Some s \<Rightarrow>
        (case findOne (\<lambda>d. shortSlug d = js_trim s) w of
           (None, w1) \<Rightarrow> (Json 404 (Failure ''URL not found''), w1)
         | (Some urlData, w1) \<Rightarrow>
             (case save_loaded urlData (\<lambda>x. x\<lparr>isActive := False\<rparr>) w1 of
                (Inl e, w2) \<Rightarrow> (Json 500 (Failure ''Failed to delete URL''), w2)
              | (Inr u, w2) \<Rightarrow>
                  (Json 200 (Deleted ''URL deleted successfully''
                     \<lparr>dd_slug = s, dd_originalUrl = originalUrl urlData,
                      dd_deletedAt = now\<rparr>), w2))))"

text \<open>\<open>app.get('/stats/:slug')\<close>; \<open>now\<close> is the value of \<open>new Date()\<close>.\<close>

definition get_stats :: "config \<Rightarrow> nat \<Rightarrow> string \<Rightarrow> world \<Rightarrow> response \<times> world" where
  "get_stats cfg now slug w =
     (case findOne (\<lambda>d. shortSlug d = js_trim slug) w of
        (None, w1) \<Rightarrow> (Json 404 (Failure ''URL not found''), w1)
      | (Some urlData, w1) \<Rightarrow>
          (Json 200 (Stats
             \<lparr>sd_originalUrl = originalUrl urlData,
              sd_shortSlug = shortSlug urlData,
              sd_shortUrl = APP_DOMAIN cfg @ ''/r/'' @ shortSlug urlData,
              sd_title = title urlData,
              sd_description = description urlData,
              sd_visits = visits urlData,
              sd_isActive = isActive urlData,
              sd_createdAt = createdAt urlData,
              sd_lastAccessed = (if visits urlData > 0 then Some now else None)\<rparr>), w1))"

section \<open>Validation and slug generation\<close>

subsection \<open>The URL parser behind \<open>new URL(url)\<close>\<close>

text \<open>
  \<open>validateUrl\<close> returns true exactly when \<open>new URL(url)\<close> does not throw, that is when
  the platform's URL parser, run without a base URL, does not return failure. The parser
  is followed here from the start of the input to the end of the scheme, where it decides
  whether an authority is parsed at all. The states that parse an authority (credentials,
  host, port) are the parameter \<open>authority\<close>: given the scheme and the input after the
  colon it returns the host, or \<open>None\<close> for failure. The path, query and fragment states
  never fail.
\<close>

definition c0_control_or_space :: "char \<Rightarrow> bool" where
  "c0_control_or_space c = (of_char c \<le> (32::nat))"

definition ascii_tab_or_newline :: "char \<Rightarrow> bool" where
  "ascii_tab_or_newline c = (of_char c \<in> {9, 10, 13 :: nat})"

definition ascii_upper_alpha :: "char \<Rightarrow> bool" where
  "ascii_upper_alpha c = (65 \<le> (of_char c :: nat) \<and> (of_char c :: nat) \<le> 90)"

definition ascii_lower_alpha :: "char \<Rightarrow> bool" where
  "ascii_lower_alpha c = (97 \<le> (of_char c :: nat) \<and> (of_char c :: nat) \<le> 122)"

definition ascii_digit :: "char \<Rightarrow> bool" where
  "ascii_digit c = (48 \<le> (of_char c :: nat) \<and> (of_char c :: nat) \<le> 57)"

definition ascii_alpha :: "char \<Rightarrow> bool" where
  "ascii_alpha c = (ascii_upper_alpha c \<or> ascii_lower_alpha c)"

definition ascii_alphanumeric :: "char \<Rightarrow> bool" where
  "ascii_alphanumeric c = (ascii_digit c \<or> ascii_alpha c)"

definition ascii_lowercase :: "char \<Rightarrow> char" where
  "ascii_lowercase c = (if ascii_upper_alpha c then char_of (of_char c + (32::nat)) else c)"

definition scheme_char :: "char \<Rightarrow> bool" where
  "scheme_char c = (ascii_alphanumeric c \<or> c = CHR ''+'' \<or> c = CHR ''-'' \<or> c = CHR ''.'')"

text \<open>
  Before the state machine starts, leading and trailing C0 controls and spaces are
  removed, then every tab and newline.
\<close>

definition url_input :: "string \<Rightarrow> string" where
  "url_input input =
     filter (\<lambda>c. \<not> ascii_tab_or_newline c)
       (rev (dropWhile c0_control_or_space (rev (dropWhile c0_control_or_space input))))"

text \<open>
  Scheme state: scheme characters are lower-cased into the buffer; a colon ends the
  scheme; anything else, or the end of the input, leads to the no-scheme state, which
  fails when there is no base URL.
\<close>

fun scheme_state :: "string \<Rightarrow> string \<Rightarrow> (string \<times> string) option" where
  "scheme_state buffer [] = None"
| "scheme_state buffer (c # cs) =
     (if scheme_char c then scheme_state (buffer @ [ascii_lowercase c]) cs
      else if c = CHR '':'' then Some (buffer, cs)
      else None)"

text \<open>Scheme start state: the first code point must be an ASCII letter.\<close>

fun scheme_start_state :: "string \<Rightarrow> (string \<times> string) option" where
  "scheme_start_state [] = None"
| "scheme_start_state (c # cs) =
     (if ascii_alpha c then scheme_state [ascii_lowercase c] cs else None)"

record url =
  url_scheme :: string
  url_host :: "string option"

definition special_scheme :: "string \<Rightarrow> bool" where
  "special_scheme s = (s \<in> {''ftp'', ''http'', ''https'', ''ws'', ''wss''})"

definition is_slash :: "char \<Rightarrow> bool" where
  "is_slash c = (c = CHR ''/'' \<or> c = CHR 0x5C)"

fun two_slashes :: "string \<Rightarrow> bool" where
  "two_slashes (a # b # cs) = (is_slash a \<and> is_slash b)"
| "two_slashes cs = False"

text \<open>
  After the scheme: \<open>file\<close> sets the host to the empty string and parses a host only
  after two slashes; the other special schemes always go to the authority; any other
  scheme goes to the authority only when \<open>//\<close> follows, and otherwise to a path or an
  opaque path, with the host left null.
\<close>

definition basic_url_parser :: "(string \<Rightarrow> string \<Rightarrow> string option) \<Rightarrow> string \<Rightarrow> url option" where
  "basic_url_parser authority input =
     (case scheme_start_state (url_input input) of
        None \<Rightarrow> None
      | Some (sch, remaining) \<Rightarrow>
          if sch = ''file'' then
            (if two_slashes remaining
             then map_option (\<lambda>h. \<lparr>url_scheme = sch, url_host = Some h\<rparr>) (authority sch remaining)
             else Some \<lparr>url_scheme = sch, url_host = Some []\<rparr>)
          else if special_scheme sch then
            map_option (\<lambda>h. \<lparr>url_scheme = sch, url_host = Some h\<rparr>) (authority sch remaining)
          else if take 2 remaining = ''//'' then
            map_option (\<lambda>h. \<lparr>url_scheme = sch, url_host = Some h\<rparr>) (authority sch remaining)
          else Some \<lparr>url_scheme = sch, url_host = None\<rparr>)"

text \<open>\<open>validateUrl\<close>: \<open>try { new URL(url); return true } catch { return false }\<close>\<close>

definition validateUrl :: "(string \<Rightarrow> string \<Rightarrow> string option) \<Rightarrow> string \<Rightarrow> bool" where
  "validateUrl authority u = (case basic_url_parser authority u of Some p \<Rightarrow> True | None \<Rightarrow> False)"

text \<open>
  The words of the specification, for comparison: a string has a scheme when its longest
  run of scheme characters is not empty, starts with a letter and is followed by a colon;
  it is hostless when that scheme is neither \<open>file\<close> nor another special scheme and the
  colon is not followed by \<open>//\<close>.
\<close>

definition has_scheme :: "string \<Rightarrow> bool" where
  "has_scheme s =
     (let pre = takeWhile scheme_char s
      in pre \<noteq> [] \<and> ascii_alpha (hd pre) \<and> take 1 (drop (length pre) s) = '':'')"


text \<open>
  An authority parser used where a concrete one is needed: it takes the input between
  the slashes and the next slash as the host and rejects an empty host.
\<close>

definition sample_authority :: "string \<Rightarrow> string \<Rightarrow> string option" where
  "sample_authority sch remaining =
     (let h = takeWhile (\<lambda>c. \<not> is_slash c) (dropWhile is_slash remaining)
      in if h = [] then None else Some h)"

subsection \<open>\<open>validateSlug\<close>\<close>

text \<open>\<open>/^[a-zA-Z0-9_-]{3,50}$/.test(slug)\<close>; without the \<open>m\<close> flag \<open>$\<close> is the end of the input.\<close>

definition slug_class :: "char \<Rightarrow> bool" where
  "slug_class c =
     (ascii_lower_alpha c \<or> ascii_upper_alpha c \<or> ascii_digit c \<or> c = CHR ''_'' \<or> c = CHR ''-'')"

definition validateSlug :: "string \<Rightarrow> bool" where
  "validateSlug slug = (3 \<le> length slug \<and> length slug \<le> 50 \<and> list_all slug_class slug)"

subsection \<open>\<open>generateSlug\<close>\<close>

text \<open>
  \<open>nanoid(n)\<close> reads \<open>n\<close> bytes of its random pool and maps each to the symbol of
  its alphabet at index \<open>byte & 63\<close>. The pool is the function \<open>pool\<close>.
\<close>

definition urlAlphabet :: string where
  "urlAlphabet = ''useandom-26T198340PX75pxJACKVERYMINDBUSHWOLF_GQZbfghjklqvwyzrict''"

definition nanoid :: "nat \<Rightarrow> (nat \<Rightarrow> 8 word) \<Rightarrow> string" where
  "nanoid n pool = map (\<lambda>i. urlAlphabet ! unat (pool i AND 63)) [0..<n]"

text \<open>
  \<open>Math.floor(Math.random() * (8 - 5 + 1)) + 5\<close>, with \<open>r\<close> the value of
  \<open>Math.random()\<close>: a number with \<open>0 \<le> r < 1\<close>. Multiplying a double by 4 is exact.
\<close>

definition generateSlug :: "real \<Rightarrow> (nat \<Rightarrow> 8 word) \<Rightarrow> string" where
  "generateSlug r pool = nanoid (nat (\<lfloor>r * (8 - 5 + 1)\<rfloor> + 5)) pool"

section \<open>Creation\<close>

text \<open>
  What one request draws from its environment: the host part of the URL parser, the
  random numbers and pool of each call of \<open>generateSlug\<close> (indexed by the attempt), the
  \<open>_id\<close> of a new document, and the clock.
\<close>

record draw =
  url_authority :: "string \<Rightarrow> string \<Rightarrow> string option"
  random :: "nat \<Rightarrow> real"
  pool_of :: "nat \<Rightarrow> nat \<Rightarrow> 8 word"
  new_id :: nat
  clock :: nat

record new_params =
  p_url :: "string option"
  p_slug :: "string option"
  p_title :: "string option"
  p_desc :: "string option"

datatype meth = GET | POST

text \<open>The slug that the \<open>k\<close>-th call of \<open>generateSlug\<close> of a request returns.\<close>

definition attempt_slug :: "draw \<Rightarrow> nat \<Rightarrow> string" where
  "attempt_slug dr k = generateSlug (random dr k) (pool_of dr k)"

text \<open>
  \<open>newUrl.save()\<close> of a new document: the schema's \<open>required\<close> validators reject an empty
  \<open>originalUrl\<close> or \<open>shortSlug\<close>; the insert fails with error 11000 when a unique index
  already holds the \<open>_id\<close> or the \<open>shortSlug\<close>.
\<close>

definition save_new :: "doc \<Rightarrow> world \<Rightarrow> (dberror + unit) \<times> world" where
  "save_new d w =
     (if \<not> valid_doc d then (Inl ValidationError, logcall Save w)
      else if doc_id d \<in> set (map doc_id (coll w)) \<or> shortSlug d \<in> set (map shortSlug (coll w))
      then (Inl DuplicateKey, logcall Save w)
      else (Inr (), logcall Save (w\<lparr>coll := coll w @ [d]\<rparr>)))"

text \<open>
  The loop \<open>while (!isUnique && attempts < 5)\<close> of the generated path, on its four
  variables and the state.
\<close>

function gen_loop :: "draw \<Rightarrow> bool \<Rightarrow> nat \<Rightarrow> string \<Rightarrow> world \<Rightarrow> bool \<times> nat \<times> string \<times> world" where
  "gen_loop dr isUnique attempts shortSlug' w =
     (if \<not> isUnique \<and> attempts < 5 then
        (let s = generateSlug (random dr attempts) (pool_of dr attempts)
         in case findOne (\<lambda>d. shortSlug d = js_trim s) w of
              (existing, w1) \<Rightarrow>
                gen_loop dr (if existing = None then True else isUnique) (attempts + 1) s w1)
      else (isUnique, attempts, shortSlug', w))"
  by pat_completeness auto
termination
  by (relation "measure (\<lambda>(dr, u, a, s, w). 5 - a)") auto

declare gen_loop.simps [simp del]

text \<open>
  \<open>new Url({originalUrl: url, shortSlug, title: title || '', description: desc || '',
  isActive: true})\<close>: the schema trims the four strings and fills in the defaults.
\<close>

definition new_Url :: "draw \<Rightarrow> string \<Rightarrow> string \<Rightarrow> string \<Rightarrow> string \<Rightarrow> doc" where
  "new_Url dr u slug t d =
     \<lparr>doc_id = new_id dr, originalUrl = js_trim u, shortSlug = js_trim slug,
      title = js_trim t, description = js_trim d,
      visits = 0, createdAt = clock dr, isActive = True\<rparr>"

text \<open>
  From \<open>new Url({...})\<close> to the response. The response repeats the parameters as they
  came; the document holds them trimmed.
\<close>

definition persist :: "config \<Rightarrow> draw \<Rightarrow> meth \<Rightarrow> new_params \<Rightarrow> string \<Rightarrow> string \<Rightarrow> world \<Rightarrow> response \<times> world" where
  "persist cfg dr m ps u slug w =
     (let newUrl = new_Url dr u slug (or_empty (p_title ps)) (or_empty (p_desc ps))
      in case save_new newUrl w of
           (Inl DuplicateKey, w1) \<Rightarrow>
             (Json 409 (Failure ''Slug already exists, please try again''), w1)
         | (Inl e, w1) \<Rightarrow> (Json 500 (Failure ''Failed to create short URL''), w1)
         | (Inr x, w1) \<Rightarrow>
             (Json (if m = GET then 200 else 201)
                (Created
                   \<lparr>cd_originalUrl = u,
                    cd_shortUrl = APP_DOMAIN cfg @ ''/r/'' @ slug,
                    cd_shortSlug = slug,
                    cd_title = or_empty (p_title ps),
                    cd_description = or_empty (p_desc ps),
                    cd_createdAt = createdAt newUrl\<rparr>
                   (if m = GET
                    then Some \<lparr>cl_access = APP_DOMAIN cfg @ ''/r/'' @ slug,
                               cl_delete = APP_DOMAIN cfg @ ''/delete.html?slug='' @ slug,
                               cl_stats = APP_DOMAIN cfg @ ''/stats/'' @ slug\<rparr>
                    else None)), w1))"

text \<open>
  \<open>app.get('/new')\<close> and \<open>app.post('/new')\<close>: the two handlers differ in the message for
  a missing URL, in the status of success and in the \<open>links\<close> block.
\<close>

definition new_handler :: "config \<Rightarrow> draw \<Rightarrow> meth \<Rightarrow> new_params \<Rightarrow> world \<Rightarrow> response \<times> world" where
  "new_handler cfg dr m ps w =
     (case truthy (p_url ps) of
        None \<Rightarrow>
          (Json 400 (Failure (if m = GET then ''URL parameter is required''
                             else ''URL is required'')), w)
      | Some u \<Rightarrow>
          if \<not> validateUrl (url_authority dr) u
          then (Json 400 (Failure ''Invalid URL format''), w)
          else
            (case truthy (p_slug ps) of
               Some shortSlug' \<Rightarrow>
                 if \<not> validateSlug shortSlug'
                 then (Json 400 (Failure
                   ''Slug can only contain letters, numbers, hyphens, and underscores (3-50 characters)''), w)
                 else
                   (case findOne (\<lambda>d. shortSlug d = js_trim shortSlug') w of
                      (Some existing, w1) \<Rightarrow>
                        (Json 409 (Failure ''Slug already exists, please choose another one''), w1)
                    | (None, w1) \<Rightarrow> persist cfg dr m ps u shortSlug' w1)
             | None \<Rightarrow>
                 (case gen_loop dr False 0 (or_empty (p_slug ps)) w of
                    (isUnique, attempts, shortSlug', w1) \<Rightarrow>
                      if \<not> isUnique
                      then (Json 500 (Failure
                        ''Failed to generate unique slug, please try again''), w1)
                      else persist cfg dr m ps u shortSlug' w1)))"

section \<open>The admin listing\<close>

subsection \<open>\<open>requireAdmin\<close>\<close>

text \<open>The middleware answers itself (\<open>Some\<close>) or calls \<open>next()\<close> (\<open>None\<close>).\<close>

definition requireAdmin :: "config \<Rightarrow> string option \<Rightarrow> response option" where
  "requireAdmin cfg adminKey =
     (case truthy adminKey of
        None \<Rightarrow> Some (Json 401 (Failure ''Admin key required''))
      | Some k \<Rightarrow>
          if Some k \<noteq> ADMIN_KEY cfg then Some (Json 403 (Failure ''Invalid admin key''))
          else None)"

subsection \<open>\<open>parseInt\<close>\<close>

text \<open>
  The double for an integer \<open>v\<close>: \<open>v\<close> itself when it has at most 53 significant bits;
  otherwise \<open>v\<close> rounded to 53 significant bits, to nearest and to the even neighbour in
  a tie; an infinity when the rounded magnitude reaches \<open>2^1024\<close>.
\<close>

definition to_double :: "int \<Rightarrow> jsnum" where
  "to_double v =
     (let a = \<bar>v\<bar>; n = bitlen a
      in if n \<le> 53 then Num v
         else
           (let e = nat (n - 53);
                q = a div 2 ^ e;
                r = a mod 2 ^ e;
                q' = (if 2 ^ (e - 1) < r \<or> (r = 2 ^ (e - 1) \<and> odd q) then q + 1 else q);
                a' = q' * 2 ^ e
            in if 2 ^ 1024 \<le> a' then (if v < 0 then NegInf else PosInf)
               else Num (if v < 0 then - a' else a')))"

text \<open>
  \<open>parseInt(string)\<close> with no radix: leading white space is skipped, a sign is read, a
  prefix \<open>0x\<close> or \<open>0X\<close> selects radix 16, and the longest run of digits of the radix is
  the numeral; with no digit the result is NaN, and otherwise the double for the signed
  value of the numeral.
\<close>

definition digit_val :: "char \<Rightarrow> nat" where
  "digit_val c =
     (if ascii_digit c then of_char c - 48
      else if ascii_lower_alpha c then of_char c - 87
      else if ascii_upper_alpha c then of_char c - 55
      else 36)"

definition parseInt :: "string \<Rightarrow> jsnum" where
  "parseInt str =
     (let S = dropWhile js_whitespace str;
          sign = (if take 1 S = ''-'' then - 1 else 1 :: int);
          S1 = (if take 1 S = ''+'' \<or> take 1 S = ''-'' then drop 1 S else S);
          hex = (take 2 S1 = ''0x'' \<or> take 2 S1 = ''0X'');
          R = (if hex then 16 else 10 :: int);
          S2 = (if hex then drop 2 S1 else S1);
          Z = takeWhile (\<lambda>c. int (digit_val c) < R) S2
      in if Z = [] then NaN
         else to_double (sign * foldl (\<lambda>a c. a * R + int (digit_val c)) 0 Z))"

subsection \<open>Regular expressions of the query\<close>

text \<open>
  \<open>{ $regex: search, $options: 'i' }\<close> hands the search string to the server as a
  regular expression. Patterns made of printable ASCII characters that are not
  metacharacters, and of the dot, are matched here: such a character matches itself up to
  the case of ASCII letters, the dot matches any character but a line feed, and the
  pattern may match anywhere in the field. Every other pattern is compiled by the
  parameter \<open>pcre_compile\<close>, which returns \<open>None\<close> for a pattern the server rejects.
\<close>

datatype atom = Lit char | AnyChar

definition regex_meta :: "char \<Rightarrow> bool" where
  "regex_meta c = (c = CHR 0x5C \<or> c \<in> set ''^$.|?*+()[]{}'')"

definition plain_char :: "char \<Rightarrow> bool" where
  "plain_char c = (32 \<le> (of_char c :: nat) \<and> (of_char c :: nat) < 127 \<and> \<not> regex_meta c)"

definition atom_of :: "char \<Rightarrow> atom option" where
  "atom_of c = (if c = CHR ''.'' then Some AnyChar
                else if plain_char c then Some (Lit c) else None)"

fun atoms_of :: "string \<Rightarrow> atom list option" where
  "atoms_of [] = Some []"
| "atoms_of (c # cs) =
     (case atom_of c of
        None \<Rightarrow> None
      | Some a \<Rightarrow> (case atoms_of cs of None \<Rightarrow> None | Some as \<Rightarrow> Some (a # as)))"

fun atom_match :: "atom \<Rightarrow> char \<Rightarrow> bool" where
  "atom_match (Lit a) c = (ascii_lowercase a = ascii_lowercase c)"
| "atom_match AnyChar c = (c \<noteq> CHR 0x0A)"

fun match_here :: "atom list \<Rightarrow> string \<Rightarrow> bool" where
  "match_here [] s = True"
| "match_here (a # as) [] = False"
| "match_here (a # as) (c # cs) = (atom_match a c \<and> match_here as cs)"

fun search_match :: "atom list \<Rightarrow> string \<Rightarrow> bool" where
  "search_match as [] = match_here as []"
| "search_match as (c # cs) = (match_here as (c # cs) \<or> search_match as cs)"

text \<open>
  The parts of the database server that the model leaves open: the regular expressions
  outside the fragment above, the sort stage (for a field name and a direction,
  \<open>True\<close> for descending, the documents in the server's order, or \<open>None\<close> for an
  error), and the cursor for a skip or a limit that is NaN, infinite, negative or not
  below \<open>2^53\<close>.
\<close>

record server =
  pcre_compile :: "string \<Rightarrow> (string \<Rightarrow> bool) option"
  sort_stage :: "string \<Rightarrow> bool \<Rightarrow> doc list \<Rightarrow> doc list option"
  irregular_page :: "jsnum \<Rightarrow> jsnum \<Rightarrow> doc list \<Rightarrow> doc list option"

definition regex_i :: "server \<Rightarrow> string \<Rightarrow> (string \<Rightarrow> bool) option" where
  "regex_i srv pat =
     (case atoms_of pat of Some as \<Rightarrow> Some (search_match as) | None \<Rightarrow> pcre_compile srv pat)"

subsection \<open>The query\<close>

text \<open>\<open>query.isActive\<close> and the pattern of \<open>query.$or\<close>, each set or not.\<close>

record query =
  q_isActive :: "bool option"
  q_or :: "string option"

definition active_ok :: "query \<Rightarrow> doc \<Rightarrow> bool" where
  "active_ok q d = (case q_isActive q of None \<Rightarrow> True | Some b \<Rightarrow> isActive d = b)"

definition query_filter :: "server \<Rightarrow> query \<Rightarrow> (doc \<Rightarrow> bool) option" where
  "query_filter srv q =
     (case q_or q of
        None \<Rightarrow> Some (active_ok q)
      | Some pat \<Rightarrow>
          (case regex_i srv pat of
             None \<Rightarrow> None
           | Some m \<Rightarrow>
               Some (\<lambda>d. active_ok q d \<and>
                  (m (originalUrl d) \<or> m (shortSlug d) \<or> m (title d) \<or> m (description d)))))"

text \<open>\<open>Url.countDocuments(query)\<close>\<close>

definition countDocuments :: "server \<Rightarrow> query \<Rightarrow> world \<Rightarrow> (dberror + nat) \<times> world" where
  "countDocuments srv q w =
     (case query_filter srv q of
        None \<Rightarrow> (Inl BadValue, logcall CountDocuments w)
      | Some flt \<Rightarrow> (Inr (length (filter flt (coll w))), logcall CountDocuments w))"

text \<open>
  The cursor, for a skip and a limit that are integers from 0 on and below \<open>2^53\<close>: a
  skip \<open>s\<close> drops \<open>s\<close> documents, a limit \<open>l > 0\<close> keeps at most \<open>l\<close>, and the limit
  0 is no limit.
\<close>

definition page_of :: "server \<Rightarrow> jsnum \<Rightarrow> jsnum \<Rightarrow> doc list \<Rightarrow> doc list option" where
  "page_of srv skip limit ds =
     (case (skip, limit) of
        (Num s, Num l) \<Rightarrow>
          if 0 \<le> s \<and> s < 2 ^ 53 \<and> 0 \<le> l \<and> l < 2 ^ 53
          then Some (if l = 0 then drop (nat s) ds else take (nat l) (drop (nat s) ds))
          else irregular_page srv skip limit ds
      | other \<Rightarrow> irregular_page srv skip limit ds)"

text \<open>\<open>Url.find(query).sort({[sort]: dir}).skip(skip).limit(limitNum).lean()\<close>\<close>

definition find_sorted_page ::
  "server \<Rightarrow> query \<Rightarrow> string \<Rightarrow> bool \<Rightarrow> jsnum \<Rightarrow> jsnum \<Rightarrow> world \<Rightarrow> (dberror + doc list) \<times> world" where
  "find_sorted_page srv q sort_field desc skip limit w =
     (case query_filter srv q of
        None \<Rightarrow> (Inl BadValue, logcall Find w)
      | Some flt \<Rightarrow>
          (case sort_stage srv sort_field desc (filter flt (coll w)) of
             None \<Rightarrow> (Inl BadValue, logcall Find w)
           | Some sorted_docs \<Rightarrow>
               (case page_of srv skip limit sorted_docs of
                  None \<Rightarrow> (Inl BadValue, logcall Find w)
                | Some urls \<Rightarrow> (Inr urls, logcall Find w))))"

record links_params =
  lp_adminKey :: "string option"
  lp_page :: "string option"
  lp_limit :: "string option"
  lp_sort :: "string option"
  lp_order :: "string option"
  lp_search :: "string option"
  lp_active :: "string option"

text \<open>A destructuring default applies to an absent parameter only.\<close>

fun default_to :: "string \<Rightarrow> string option \<Rightarrow> string" where
  "default_to d None = d"
| "default_to d (Some s) = s"

text \<open>
  Subtraction and multiplication of doubles: the exact result, rounded. NaN stays NaN,
  an infinity minus 1 is that infinity, an infinity times zero is NaN, and an infinity
  times anything else is an infinity with the product of the signs.
\<close>

fun js_minus_one :: "jsnum \<Rightarrow> jsnum" where
  "js_minus_one (Num a) = to_double (a - 1)"
| "js_minus_one x = x"

fun js_sign :: "jsnum \<Rightarrow> int" where
  "js_sign NaN = 0"
| "js_sign (Num a) = sgn a"
| "js_sign PosInf = 1"
| "js_sign NegInf = - 1"

definition js_times :: "jsnum \<Rightarrow> jsnum \<Rightarrow> jsnum" where
  "js_times x y =
     (case (x, y) of
        (Num a, Num b) \<Rightarrow> to_double (a * b)
      | other \<Rightarrow>
          if x = NaN \<or> y = NaN \<or> js_sign x * js_sign y = 0 then NaN
          else if 0 < js_sign x * js_sign y then PosInf
          else NegInf)"

text \<open>\<open>(pageNum - 1) * limitNum\<close>\<close>

definition skip_of :: "jsnum \<Rightarrow> jsnum \<Rightarrow> jsnum" where
  "skip_of pageNum limitNum = js_times (js_minus_one pageNum) limitNum"

text \<open>
  \<open>Math.ceil(total / limitNum)\<close>, as the JSON response carries it: \<open>null\<close> when it is
  NaN or an infinity, that is for a limit that is NaN or zero; 0 for an infinite limit;
  and otherwise the ceiling of the quotient. (The quotient of the two doubles is rounded
  before \<open>Math.ceil\<close> is taken; for a total below \<open>2^53\<close> the result is the ceiling of
  the exact quotient.)
\<close>

fun total_pages :: "nat \<Rightarrow> jsnum \<Rightarrow> int option" where
  "total_pages n NaN = None"
| "total_pages n (Num limitNum) =
     (if limitNum = 0 then None else Some \<lceil>(of_nat n :: rat) / of_int limitNum\<rceil>)"
| "total_pages n PosInf = Some 0"
| "total_pages n NegInf = Some 0"

text \<open>
  The query that the handler builds: \<open>isActive\<close> is set when \<open>active\<close> is \<open>'true'\<close> or
  \<open>'false'\<close>, and \<open>$or\<close> when \<open>search\<close> is not empty.
\<close>

definition build_query :: "string \<Rightarrow> string \<Rightarrow> query" where
  "build_query active search =
     \<lparr>q_isActive = (if active = ''true'' \<or> active = ''false''
                     then Some (active = ''true'') else None),
      q_or = (if search \<noteq> [] then Some search else None)\<rparr>"

text \<open>The handler of \<open>app.get('/linksdata')\<close>, behind the middleware.\<close>

definition linksdata_handler :: "server \<Rightarrow> links_params \<Rightarrow> world \<Rightarrow> response \<times> world" where
  "linksdata_handler srv ps w =
     (let page = default_to ''1'' (lp_page ps);
          limit = default_to ''100'' (lp_limit ps);
          sort_field = default_to ''createdAt'' (lp_sort ps);
          order = default_to ''desc'' (lp_order ps);
          search = default_to [] (lp_search ps);
          active = default_to ''true'' (lp_active ps);
          pageNum = parseInt page;
          limitNum = parseInt limit;
          skip = skip_of pageNum limitNum;
          q = build_query active search;
          failed = Json 500 (Failure ''Failed to fetch links data'')
      in case countDocuments srv q w of
           (Inl e, w1) \<Rightarrow> (failed, w1)
         | (Inr total_n, w1) \<Rightarrow>
             (case find_sorted_page srv q sort_field (order = ''desc'') skip limitNum w1 of
                (Inl e, w2) \<Rightarrow> (failed, w2)
              | (Inr urls, w2) \<Rightarrow>
                  (let activeCount = length (filter isActive (coll w2));
                       w3 = logcall CountDocuments w2;
                       totalVisits = sum_list (map visits (filter isActive (coll w3)));
                       w4 = logcall Aggregate w3
                   in (Json 200 (Links
                         \<lparr>ld_urls = urls,
                          ld_page = pageNum,
                          ld_limit = limitNum,
                          ld_total = total_n,
                          ld_totalPages = total_pages total_n limitNum,
                          ld_totalUrls = total_n,
                          ld_activeUrls = activeCount,
                          ld_inactiveUrls = int total_n - int activeCount,
                          ld_totalVisits = totalVisits,
                          ld_averageVisits =
                            (if activeCount > 0 then of_nat totalVisits / of_nat activeCount
                             else 0)\<rparr>), w4))))"

definition get_linksdata :: "config \<Rightarrow> server \<Rightarrow> links_params \<Rightarrow> world \<Rightarrow> response \<times> world" where
  "get_linksdata cfg srv ps w =
     (case requireAdmin cfg (lp_adminKey ps) of
        Some r \<Rightarrow> (r, w)
      | None \<Rightarrow> linksdata_handler srv ps w)"





text \<open>A server used where a concrete one is needed: no further patterns, no reordering.\<close>

definition sample_server :: server where
  "sample_server =
     \<lparr>pcre_compile = (\<lambda>pat. None),
      sort_stage = (\<lambda>k desc ds. Some (if desc then rev ds else ds)),
      irregular_page = (\<lambda>skip limit ds. None)\<rparr>"

section \<open>The service as a whole\<close>

datatype request =
    New meth new_params
  | R string
  | DeletePy "string option"
  | LinksData links_params
  | StatsOf string

definition handle :: "config \<Rightarrow> server \<Rightarrow> draw \<Rightarrow> request \<Rightarrow> world \<Rightarrow> response \<times> world" where
  "handle cfg srv dr rq w =
     (case rq of
        New m ps \<Rightarrow> new_handler cfg dr m ps w
      | R slug \<Rightarrow> get_r slug w
      | DeletePy slug \<Rightarrow> get_delete_py (clock dr) slug w
      | LinksData ps \<Rightarrow> get_linksdata cfg srv ps w
      | StatsOf slug \<Rightarrow> get_stats cfg (clock dr) slug w)"

text \<open>Requests served one after another, each with its own draw.\<close>

fun serve :: "config \<Rightarrow> server \<Rightarrow> (draw \<times> request) list \<Rightarrow> world \<Rightarrow> world" where
  "serve cfg srv [] w = w"
| "serve cfg srv ((dr, rq) # rest) w = serve cfg srv rest (snd (handle cfg srv dr rq w))"



section \<open>Overlapping redirects\<close>

text \<open>
  The redirect handler awaits twice: \<open>findOne\<close>, then \<open>save\<close>. Between two awaits a
  handler runs alone; at an await another request's step may come first. A redirect in
  flight is before its \<open>findOne\<close>, between the two with the document it loaded, or done.
\<close>

datatype flight = Arrived string | Loaded doc | Done response

fun r_step :: "flight \<Rightarrow> world \<Rightarrow> flight \<times> world" where
  "r_step (Arrived slug) w =
     (case findOne (\<lambda>d. shortSlug d = js_trim slug \<and> isActive d) w of
        (None, w1) \<Rightarrow> (Done (Json 404 (Failure ''Short URL not found'')), w1)
      | (Some urlData, w1) \<Rightarrow> (Loaded urlData, w1))"
| "r_step (Loaded urlData) w =
     (let n = visits urlData + 1
      in case save_loaded urlData (\<lambda>x. x\<lparr>visits := n\<rparr>) w of
           (Inl e, w2) \<Rightarrow> (Done (Json 500 (Failure ''Failed to redirect'')), w2)
         | (Inr u, w2) \<Rightarrow> (Done (Redirect 301 (originalUrl urlData)), w2))"
| "r_step (Done r) w = (Done r, w)"

text \<open>A schedule names, step by step, the request that moves.\<close>

fun interleave :: "nat list \<Rightarrow> flight list \<times> world \<Rightarrow> flight list \<times> world" where
  "interleave [] st = st"
| "interleave (i # sched) (fs, w) =
     (if i < length fs
      then (case r_step (fs ! i) w of (f, w1) \<Rightarrow> interleave sched (fs[i := f], w1))
      else interleave sched (fs, w))"

definition visits_of :: "string \<Rightarrow> doc list \<Rightarrow> nat option" where
  "visits_of slug ds = map_option visits (find (\<lambda>d. shortSlug d = slug) ds)"

fun is_done :: "flight \<Rightarrow> bool" where
  "is_done (Done r) = True"
| "is_done f = False"

text \<open>
  What holds while \<open>n\<close> redirects for the slug \<open>s\<close> overlap, for the record with id
  \<open>id0\<close> that had \<open>v0\<close> visits when they arrived: the collection keeps its unique
  indexes; the record is still the active one for \<open>s\<close>, with at least \<open>v0\<close> visits,
  more than \<open>v0\<close> once a redirect is done, and at most \<open>v0\<close> plus the number of
  redirects done; every redirect in flight is for \<open>s\<close> and, if it has loaded, holds a
  valid version of that record with a count in the same range.
\<close>

definition ndone :: "flight list \<Rightarrow> nat" where
  "ndone fs = length (filter is_done fs)"

fun flight_ok :: "string \<Rightarrow> nat \<Rightarrow> nat \<Rightarrow> nat \<Rightarrow> flight \<Rightarrow> bool" where
  "flight_ok s id0 v0 n (Arrived s') = (s' = s)"
| "flight_ok s id0 v0 n (Loaded x) =
     (doc_id x = id0 \<and> valid_doc x \<and> v0 \<le> visits x \<and> visits x \<le> v0 + n)"
| "flight_ok s id0 v0 n (Done r) = True"

definition overlap_inv :: "string \<Rightarrow> nat \<Rightarrow> nat \<Rightarrow> flight list \<Rightarrow> world \<Rightarrow> bool" where
  "overlap_inv s id0 v0 fs w =
     (wf_store (coll w) \<and>
      (\<exists>d. find (\<lambda>x. shortSlug x = s \<and> isActive x) (coll w) = Some d \<and> doc_id d = id0 \<and>
           v0 \<le> visits d \<and> visits d \<le> v0 + ndone fs \<and> (0 < ndone fs \<longrightarrow> v0 < visits d)) \<and>
      list_all (flight_ok s id0 v0 (ndone fs)) fs)"

section \<open>Overlapping requests of any kind\<close>















section \<open>A small collection for concrete runs\<close>

definition ex_doc1 :: doc where
  "ex_doc1 = \<lparr>doc_id = 1, originalUrl = ''https://example.com'', shortSlug = ''my-link'',
               title = ''abc'', description = [], visits = 0, createdAt = 5,
               isActive = True\<rparr>"

definition ex_doc2 :: doc where
  "ex_doc2 = \<lparr>doc_id = 2, originalUrl = ''https://b.org'', shortSlug = ''other'',
               title = ''xyz'', description = ''abc too'', visits = 3, createdAt = 6,
               isActive = False\<rparr>"

definition ex_doc3 :: doc where
  "ex_doc3 = \<lparr>doc_id = 3, originalUrl = ''https://c.net/ABC'', shortSlug = ''third'',
               title = [], description = [], visits = 2, createdAt = 7,
               isActive = True\<rparr>"

definition ex_world :: world where
  "ex_world = \<lparr>coll = [ex_doc1, ex_doc2, ex_doc3], calls = []\<rparr>"

definition ex_draw :: draw where
  "ex_draw = \<lparr>url_authority = sample_authority, random = (\<lambda>k. 1 / 2),
              pool_of = (\<lambda>k i. of_nat (7 * k + i)), new_id = 4, clock = 100\<rparr>"

definition ex_draw_stuck :: draw where
  "ex_draw_stuck = ex_draw\<lparr>pool_of := (\<lambda>k i. of_nat i)\<rparr>"

definition ex_doc4 :: doc where
  "ex_doc4 = \<lparr>doc_id = 9, originalUrl = ''https://d.io'', shortSlug = ''useando'',
               title = [], description = [], visits = 0, createdAt = 8,
               isActive = True\<rparr>"

definition ex_world_stuck :: world where
  "ex_world_stuck = \<lparr>coll = [ex_doc1, ex_doc4], calls = []\<rparr>"

definition ex_new :: "string option \<Rightarrow> string option \<Rightarrow> new_params" where
  "ex_new u s = \<lparr>p_url = u, p_slug = s, p_title = None, p_desc = None\<rparr>"


definition ex_config :: config where
  "ex_config = \<lparr>ADMIN_KEY = Some ''secret'', APP_DOMAIN = ''http://localhost:4056''\<rparr>"

section \<open>Facts about the collection\<close>

lemma find_by_slug:
  "distinct (map shortSlug ds) \<Longrightarrow> d \<in> set ds \<Longrightarrow>
   find (\<lambda>x. shortSlug x = shortSlug d) ds = Some d"
  by (induction ds) (auto simp: image_iff)

lemma find_active_by_slug:
  "distinct (map shortSlug ds) \<Longrightarrow> d \<in> set ds \<Longrightarrow> isActive d \<Longrightarrow>
   find (\<lambda>x. shortSlug x = shortSlug d \<and> isActive x) ds = Some d"
  by (induction ds) (auto simp: image_iff)

lemma map_by_id:
  "distinct (map doc_id ds) \<Longrightarrow> d \<in> set ds \<Longrightarrow>
   map (\<lambda>x. if doc_id x = doc_id d then f x else x) ds = map (\<lambda>x. if x = d then f d else x) ds"
proof (rule map_cong[OF refl])
  fix x assume d: "distinct (map doc_id ds)" "d \<in> set ds" and x: "x \<in> set ds"
  from d have "inj_on doc_id (set ds)" by (simp add: distinct_map)
  with d x have "doc_id x = doc_id d \<longleftrightarrow> x = d" by (auto dest: inj_onD)
  then show "(if doc_id x = doc_id d then f x else x) = (if x = d then f d else x)" by auto
qed

lemma wf_store_map:
  assumes "wf_store ds" "\<And>x. doc_id (f x) = doc_id x" "\<And>x. shortSlug (f x) = shortSlug x"
    "\<And>x. originalUrl (f x) = originalUrl x"
  shows "wf_store (map f ds)"
proof -
  have "map doc_id (map f ds) = map doc_id ds" "map shortSlug (map f ds) = map shortSlug ds"
    using assms(2,3) by simp_all
  moreover have "valid_doc (f x) = valid_doc x" for x
    using assms(3,4) by (simp add: valid_doc_def)
  ultimately show ?thesis
    using assms(1,3) by (simp add: wf_store_def list_all_iff del: map_map)
qed

lemma wf_store_valid: "wf_store ds \<Longrightarrow> d \<in> set ds \<Longrightarrow> valid_doc d"
  by (simp add: wf_store_def list_all_iff)

lemma wf_store_trimmed: "wf_store ds \<Longrightarrow> d \<in> set ds \<Longrightarrow> js_trim (shortSlug d) = shortSlug d"
  by (simp add: wf_store_def list_all_iff)

lemma save_loaded_valid:
  "valid_doc (upd d) \<Longrightarrow> save_loaded d upd w = (Inr (), write_loaded d upd w)"
  by (simp add: save_loaded_def)

lemma wf_ex_world: "wf_store (coll ex_world)"
  by code_simp

subsection \<open>The three handlers of one link, by the outcome of \<open>findOne\<close>\<close>

lemma get_r_found:
  assumes "find (\<lambda>x. shortSlug x = js_trim s \<and> isActive x) (coll w) = Some d" "valid_doc d"
  shows "get_r s w =
           (Redirect 301 (originalUrl d),
            write_loaded d (\<lambda>x. x\<lparr>visits := visits d + 1\<rparr>) (logcall FindOne w))"
proof -
  have "valid_doc (d\<lparr>visits := visits d + 1\<rparr>)" using assms(2) by (simp add: valid_doc_def)
  then show ?thesis using assms(1) by (simp add: get_r_def findOne_def Let_def save_loaded_valid)
qed


lemma get_r_active:
  assumes wf: "wf_store (coll w)"
    and d: "d \<in> set (coll w)" "shortSlug d = js_trim s" "isActive d"
  shows "fst (get_r s w) = Redirect 301 (originalUrl d)"
    and "coll (snd (get_r s w)) =
           map (\<lambda>x. if x = d then d\<lparr>visits := visits d + 1\<rparr> else x) (coll w)"
proof -
  from wf d have f: "find (\<lambda>x. shortSlug x = js_trim s \<and> isActive x) (coll w) = Some d"
    using find_active_by_slug[of "coll w" d] by (auto simp: wf_store_def)
  from wf d have v: "valid_doc d" by (simp add: wf_store_valid)
  show "fst (get_r s w) = Redirect 301 (originalUrl d)"
    by (simp add: get_r_found[OF f v])
  have "coll (snd (get_r s w)) =
          map (\<lambda>x. if doc_id x = doc_id d then x\<lparr>visits := visits d + 1\<rparr> else x) (coll w)"
    by (simp add: get_r_found[OF f v] write_loaded_def logcall_def)
  also have "\<dots> = map (\<lambda>x. if x = d then d\<lparr>visits := visits d + 1\<rparr> else x) (coll w)"
    using wf d by (intro map_by_id) (simp_all add: wf_store_def)
  finally show "coll (snd (get_r s w)) =
      map (\<lambda>x. if x = d then d\<lparr>visits := visits d + 1\<rparr> else x) (coll w)" .
qed

lemma get_r_stored:
  assumes wf: "wf_store (coll w)" and d: "d \<in> set (coll w)" "shortSlug d = s" "isActive d"
  shows "fst (get_r s w) = Redirect 301 (originalUrl d)"
    and "coll (snd (get_r s w)) =
           map (\<lambda>x. if x = d then d\<lparr>visits := visits d + 1\<rparr> else x) (coll w)"
proof -
  from wf d have "shortSlug d = js_trim s" using wf_store_trimmed[of "coll w" d] by simp
  from get_r_active[OF wf d(1) this d(3)]
  show "fst (get_r s w) = Redirect 301 (originalUrl d)"
    and "coll (snd (get_r s w)) =
           map (\<lambda>x. if x = d then d\<lparr>visits := visits d + 1\<rparr> else x) (coll w)" .
qed


lemma redirect_in_two_steps:
  "interleave [0, 0] ([Arrived s], w) = ([Done (fst (get_r s w))], snd (get_r s w))"
  by (cases "find (\<lambda>x. shortSlug x = js_trim s \<and> isActive x) (coll w)")
     (auto simp: get_r_def findOne_def Let_def split: prod.splits sum.splits)

section \<open>Redirect\<close>



text \<open>
  The claim as stated fails for a slug with white space around it: no record has the slug
  \<open>my-link\<close> between two spaces, and the request for it is answered 301 and counted
  for the record \<open>my-link\<close>. It also fails when two redirects overlap: after both have
  loaded the record and the first has saved, the second saves and is answered 301, and
  \<open>visits\<close> is what it was before that save.
\<close>

theorem redirect_contract_counterexample:
  "'' my-link '' \<notin> set (map shortSlug (coll ex_world)) \<and>
   fst (get_r '' my-link '' ex_world) = Redirect 301 ''https://example.com'' \<and>
   map visits (coll ex_world) = [0, 3, 2] \<and>
   map visits (coll (snd (get_r '' my-link '' ex_world))) = [1, 3, 2] \<and>
   visits_of ''my-link''
     (coll (snd (interleave [0, 1, 0] ([Arrived ''my-link'', Arrived ''my-link''], ex_world)))) =
     Some 1 \<and>
   interleave [1] (interleave [0, 1, 0] ([Arrived ''my-link'', Arrived ''my-link''], ex_world)) =
     interleave [0, 1, 0, 1] ([Arrived ''my-link'', Arrived ''my-link''], ex_world) \<and>
   fst (interleave [0, 1, 0, 1] ([Arrived ''my-link'', Arrived ''my-link''], ex_world)) ! 1 =
     Done (Redirect 301 ''https://example.com'') \<and>
   visits_of ''my-link''
     (coll (snd (interleave [0, 1, 0, 1] ([Arrived ''my-link'', Arrived ''my-link''], ex_world)))) =
     Some 1"
  by code_simp

section \<open>Soft delete\<close>




section \<open>Statistics of one link\<close>

text \<open>
  C10. When the statistics request for \<open>s\<close> finds the record \<open>d\<close>, the response field
  \<open>lastAccessed\<close> is the time \<open>now\<close> at which the response is built if \<open>visits d > 0\<close>,
  and null if \<open>visits d = 0\<close>. It is not the time of a redirect: after a redirect on an
  active \<open>s\<close>, whenever that took place, the statistics asked at any time \<open>now\<close> show
  \<open>lastAccessed = now\<close>.
\<close>

theorem stats_lastAccessed:
  "(find (\<lambda>x. shortSlug x = js_trim s) (coll w) = Some d \<longrightarrow>
      (\<exists>sd. get_stats cfg now s w = (Json 200 (Stats sd), logcall FindOne w) \<and>
            sd_visits sd = visits d \<and>
            sd_lastAccessed sd = (if visits d > 0 then Some now else None))) \<and>
   (wf_store (coll w) \<and> d \<in> set (coll w) \<and> shortSlug d = s \<and> isActive d \<longrightarrow>
      (\<exists>sd. fst (get_stats cfg now s (snd (get_r s w))) = Json 200 (Stats sd) \<and>
            sd_visits sd = visits d + 1 \<and> sd_lastAccessed sd = Some now))"
proof (intro conjI impI)
  assume "find (\<lambda>x. shortSlug x = js_trim s) (coll w) = Some d"
  then show "\<exists>sd. get_stats cfg now s w = (Json 200 (Stats sd), logcall FindOne w) \<and>
            sd_visits sd = visits d \<and>
            sd_lastAccessed sd = (if visits d > 0 then Some now else None)"
    by (simp add: get_stats_def findOne_def)
next
  assume h: "wf_store (coll w) \<and> d \<in> set (coll w) \<and> shortSlug d = s \<and> isActive d"
  define d' where "d' = d\<lparr>visits := visits d + 1\<rparr>"
  define ds' where "ds' = map (\<lambda>x. if x = d then d' else x) (coll w)"
  from h have tr: "js_trim s = s" using wf_store_trimmed[of "coll w" d] by auto
  have c: "coll (snd (get_r s w)) = ds'"
    using get_r_stored(2)[of w d s] h by (simp add: ds'_def d'_def)
  have wf': "wf_store ds'"
    unfolding ds'_def using h by (intro wf_store_map) (simp_all add: d'_def)
  have "d' \<in> set ds'" using h by (auto simp: ds'_def)
  moreover have "shortSlug d' = s" using h by (simp add: d'_def)
  ultimately have f': "find (\<lambda>x. shortSlug x = s) ds' = Some d'"
    using find_by_slug[of ds' d'] wf' by (auto simp: wf_store_def)
  show "\<exists>sd. fst (get_stats cfg now s (snd (get_r s w))) = Json 200 (Stats sd) \<and>
            sd_visits sd = visits d + 1 \<and> sd_lastAccessed sd = Some now"
    using f' c by (simp add: get_stats_def findOne_def d'_def tr)
qed

theorem stats_lastAccessed_witness:
  "(\<exists>sd. get_stats ex_config 99 ''other'' ex_world =
            (Json 200 (Stats sd), logcall FindOne ex_world) \<and>
         sd_visits sd = 3 \<and> sd_lastAccessed sd = Some 99) \<and>
   (\<exists>sd. get_stats ex_config 99 ''my-link'' ex_world =
            (Json 200 (Stats sd), logcall FindOne ex_world) \<and>
         sd_visits sd = 0 \<and> sd_lastAccessed sd = None) \<and>
   (\<exists>sd. fst (get_stats ex_config 99 ''my-link'' (snd (get_r ''my-link'' ex_world))) =
            Json 200 (Stats sd) \<and>
         sd_visits sd = 1 \<and> sd_lastAccessed sd = Some 99)"
proof -
  have t: "js_trim ''my-link'' = ''my-link''" "js_trim ''other'' = ''other''" by code_simp+
  show ?thesis
    using stats_lastAccessed[of "''other''" ex_world ex_doc2 ex_config 99]
      stats_lastAccessed[of "''my-link''" ex_world ex_doc1 ex_config 99]
      wf_ex_world
    by (simp add: t ex_world_def ex_doc1_def ex_doc2_def ex_doc3_def)
qed

section \<open>The URL validator\<close>

lemma not_scheme_char_colon: "\<not> scheme_char (CHR '':'')"
  by (simp add: scheme_char_def ascii_alphanumeric_def ascii_digit_def ascii_alpha_def
      ascii_upper_alpha_def ascii_lower_alpha_def)

lemma scheme_state_eq:
  "scheme_state buffer cs =
     (if take 1 (drop (length (takeWhile scheme_char cs)) cs) = '':''
      then Some (buffer @ map ascii_lowercase (takeWhile scheme_char cs),
                 drop (Suc (length (takeWhile scheme_char cs))) cs)
      else None)"
proof (induction cs arbitrary: buffer)
  case Nil
  show ?case by simp
next
  case (Cons c cs)
  show ?case
  proof (cases "scheme_char c")
    case True
    then show ?thesis using Cons.IH[of "buffer @ [ascii_lowercase c]"] by simp
  next
    case False
    then show ?thesis by (cases "c = CHR '':''") simp_all
  qed
qed

lemma alpha_scheme_char: "ascii_alpha c \<Longrightarrow> scheme_char c"
  by (simp add: scheme_char_def ascii_alphanumeric_def)

lemma scheme_start_state_eq:
  "scheme_start_state s =
     (if has_scheme s
      then Some (map ascii_lowercase (takeWhile scheme_char s),
                 drop (Suc (length (takeWhile scheme_char s))) s)
      else None)"
proof (cases s)
  case Nil
  then show ?thesis by (simp add: has_scheme_def)
next
  case (Cons c cs)
  show ?thesis
  proof (cases "ascii_alpha c")
    case True
    then have "scheme_char c" by (rule alpha_scheme_char)
    with True Cons show ?thesis
      by (simp add: scheme_state_eq has_scheme_def)
  next
    case False
    with Cons show ?thesis by (auto simp: has_scheme_def Let_def)
  qed
qed




section \<open>Facts about slug generation and creation\<close>

lemma length_urlAlphabet: "length urlAlphabet = 64"
  by (simp add: urlAlphabet_def)

lemma slug_class_urlAlphabet: "list_all slug_class urlAlphabet"
  by (simp add: urlAlphabet_def slug_class_def ascii_digit_def
      ascii_upper_alpha_def ascii_lower_alpha_def)

lemma unat_and_63: "unat ((b :: 8 word) AND 63) < 64"
proof -
  have "b AND 63 \<le> 63" by (rule word_and_le1)
  then have "unat (b AND 63) \<le> unat (63 :: 8 word)" by (simp add: word_le_nat_alt)
  then show ?thesis by simp
qed

lemma nanoid_length: "length (nanoid n pool) = n"
  by (simp add: nanoid_def)

lemma nanoid_class: "list_all slug_class (nanoid n pool)"
proof -
  have "slug_class (urlAlphabet ! k)" if "k < 64" for k
    using slug_class_urlAlphabet that by (simp add: list_all_length length_urlAlphabet)
  then show ?thesis by (simp add: nanoid_def list_all_iff unat_and_63)
qed

lemma nanoid_alphabet: "set (nanoid n pool) \<subseteq> set urlAlphabet"
  by (auto simp: nanoid_def length_urlAlphabet unat_and_63)

lemma generateSlug_length:
  assumes "0 \<le> r" "r < 1"
  shows "5 \<le> length (generateSlug r pool) \<and> length (generateSlug r pool) \<le> 8"
proof -
  have "0 \<le> \<lfloor>r * 4\<rfloor>" using assms by simp
  moreover have "\<lfloor>r * 4\<rfloor> < 4" using assms by (simp add: floor_less_iff)
  ultimately have "5 \<le> nat (\<lfloor>r * 4\<rfloor> + 5) \<and> nat (\<lfloor>r * 4\<rfloor> + 5) \<le> 8" by linarith
  then show ?thesis by (simp add: generateSlug_def nanoid_length)
qed

lemma dropWhile_keeps: "x \<in> set xs \<Longrightarrow> \<not> P x \<Longrightarrow> x \<in> set (dropWhile P xs)"
  by (induction xs) auto

lemma js_trim_nonempty:
  assumes "c \<in> set s" "\<not> js_whitespace c"
  shows "js_trim s \<noteq> []"
proof -
  from assms have "c \<in> set (dropWhile js_whitespace s)" by (rule dropWhile_keeps)
  then have "c \<in> set (rev (dropWhile js_whitespace s))" by simp
  then have "c \<in> set (dropWhile js_whitespace (rev (dropWhile js_whitespace s)))"
    using assms(2) by (rule dropWhile_keeps)
  then show ?thesis unfolding js_trim_def by (metis rev_is_Nil_conv empty_iff empty_set)
qed

lemma js_trim_id:
  assumes "list_all (\<lambda>c. \<not> js_whitespace c) s"
  shows "js_trim s = s"
proof -
  have "dropWhile js_whitespace xs = xs" if "list_all (\<lambda>c. \<not> js_whitespace c) xs" for xs
    using that by (cases xs) simp_all
  moreover have "list_all (\<lambda>c. \<not> js_whitespace c) (rev s)" using assms by (simp add: list_all_iff)
  ultimately show ?thesis using assms by (simp add: js_trim_def)
qed

lemma slug_class_not_ws: "slug_class c \<Longrightarrow> \<not> js_whitespace c"
  by (auto simp: slug_class_def js_whitespace_def ascii_digit_def
      ascii_upper_alpha_def ascii_lower_alpha_def)

lemma alpha_not_ws: "ascii_alpha c \<Longrightarrow> \<not> js_whitespace c"
  by (auto simp: ascii_alpha_def js_whitespace_def ascii_upper_alpha_def ascii_lower_alpha_def)

lemma generateSlug_trimmed: "js_trim (generateSlug r pool) = generateSlug r pool"
proof (rule js_trim_id)
  have "list_all slug_class (generateSlug r pool)" by (simp add: generateSlug_def nanoid_class)
  then show "list_all (\<lambda>c. \<not> js_whitespace c) (generateSlug r pool)"
    by (auto simp: list_all_iff dest: slug_class_not_ws)
qed

lemma find_slug_None: "find (\<lambda>d. shortSlug d = s) ds = None \<longleftrightarrow> s \<notin> shortSlug ` set ds"
  by (auto simp: find_None_iff)

lemma gen_loop_spec:
  "gen_loop dr u a s w = (u', a', s', w') \<Longrightarrow>
     coll w' = coll w \<and> calls w' = calls w @ replicate (a' - a) FindOne \<and> a \<le> a' \<and>
     (a \<le> 5 \<longrightarrow> a' \<le> 5) \<and>
     (u \<longrightarrow> u' \<and> a' = a \<and> s' = s) \<and>
     (\<not> u \<and> a < 5 \<longrightarrow> a < a') \<and>
     (u' \<and> \<not> u \<longrightarrow> a < a' \<and> s' = generateSlug (random dr (a' - 1)) (pool_of dr (a' - 1)) \<and>
        s' \<notin> shortSlug ` set (coll w)) \<and>
     (\<not> u' \<longrightarrow> (\<forall>k. a \<le> k \<and> k < 5 \<longrightarrow>
        generateSlug (random dr k) (pool_of dr k) \<in> shortSlug ` set (coll w)))"
proof (induction dr u a s w arbitrary: u' a' s' w' rule: gen_loop.induct)
  case (1 dr isUnique attempts shortSlug' w)
  show ?case
  proof (cases "\<not> isUnique \<and> attempts < 5")
    case False
    with "1.prems" show ?thesis by (auto simp: gen_loop.simps[of dr isUnique attempts])
  next
    case True
    define s1 where "s1 = generateSlug (random dr attempts) (pool_of dr attempts)"
    define ex where "ex = find (\<lambda>d. shortSlug d = s1) (coll w)"
    define w1 where "w1 = logcall FindOne w"
    have tr: "js_trim s1 = s1" by (simp add: s1_def generateSlug_trimmed)
    have fo: "findOne (\<lambda>d. shortSlug d = js_trim s1) w = (ex, w1)"
      by (simp add: findOne_def ex_def w1_def tr)
    have step: "gen_loop dr isUnique attempts shortSlug' w =
        gen_loop dr (if ex = None then True else isUnique) (attempts + 1) s1 w1"
      using True by (subst gen_loop.simps) (simp add: Let_def s1_def[symmetric] fo)
    with "1.prems" have rec: "gen_loop dr (if ex = None then True else isUnique) (attempts + 1) s1 w1
        = (u', a', s', w')" by simp
    note IH = "1.IH"[OF True s1_def fo[symmetric] rec]
    have cw: "coll w1 = coll w" "calls w1 = calls w @ [FindOne]"
      by (simp_all add: w1_def logcall_def)
    define u1 where "u1 = (if ex = None then True else isUnique)"
    from True have u1: "u1 \<longleftrightarrow> ex = None" by (simp add: u1_def)
    have ih_coll: "coll w' = coll w1"
      and ih_calls: "calls w' = calls w1 @ replicate (a' - (attempts + 1)) FindOne"
      and ih_le: "attempts + 1 \<le> a'"
      and ih_5: "attempts + 1 \<le> 5 \<longrightarrow> a' \<le> 5"
      and ih_u: "u1 \<longrightarrow> u' \<and> a' = attempts + 1 \<and> s' = s1"
      and ih_new: "u' \<and> \<not> u1 \<longrightarrow> attempts + 1 < a' \<and>
            s' = generateSlug (random dr (a' - 1)) (pool_of dr (a' - 1)) \<and>
            s' \<notin> shortSlug ` set (coll w1)"
      and ih_all: "\<not> u' \<longrightarrow> (\<forall>k. attempts + 1 \<le> k \<and> k < 5 \<longrightarrow>
            generateSlug (random dr k) (pool_of dr k) \<in> shortSlug ` set (coll w1))"
      using IH unfolding u1_def by blast+
    have c1: "coll w' = coll w" using ih_coll cw by simp
    have "a' - attempts = Suc (a' - (attempts + 1))" using ih_le by simp
    then have c2: "calls w' = calls w @ replicate (a' - attempts) FindOne"
      using ih_calls cw by simp
    have c3: "attempts \<le> a'" using ih_le by simp
    have c4: "attempts \<le> 5 \<longrightarrow> a' \<le> 5" using ih_5 True by simp
    have c5: "isUnique \<longrightarrow> u' \<and> a' = attempts \<and> s' = shortSlug'" using True by simp
    have c6: "\<not> isUnique \<and> attempts < 5 \<longrightarrow> attempts < a'" using ih_le by simp
    have c7: "u' \<and> \<not> isUnique \<longrightarrow> attempts < a' \<and>
        s' = generateSlug (random dr (a' - 1)) (pool_of dr (a' - 1)) \<and>
        s' \<notin> shortSlug ` set (coll w)"
    proof (cases u1)
      case True
      with u1 have "s1 \<notin> shortSlug ` set (coll w)" by (simp add: ex_def find_slug_None)
      moreover from True ih_u have "a' = attempts + 1" "s' = s1" by simp_all
      ultimately show ?thesis by (simp add: s1_def)
    next
      case False
      with ih_new cw show ?thesis by auto
    qed
    have c8: "\<not> u' \<longrightarrow> (\<forall>k. attempts \<le> k \<and> k < 5 \<longrightarrow>
        generateSlug (random dr k) (pool_of dr k) \<in> shortSlug ` set (coll w))"
    proof (intro impI allI)
      fix k assume nu: "\<not> u'" and k: "attempts \<le> k \<and> k < 5"
      from nu ih_u have "\<not> u1" by auto
      with u1 have here: "s1 \<in> shortSlug ` set (coll w)" by (simp add: ex_def find_slug_None)
      show "generateSlug (random dr k) (pool_of dr k) \<in> shortSlug ` set (coll w)"
      proof (cases "k = attempts")
        case True
        with here show ?thesis by (simp add: s1_def)
      next
        case False
        with k have "attempts + 1 \<le> k \<and> k < 5" by simp
        with ih_all nu cw show ?thesis by simp
      qed
    qed
    from c1 c2 c3 c4 c5 c6 c7 c8 show ?thesis by blast
  qed
qed

lemma set_url_input: "set (url_input u) \<subseteq> set u"
proof -
  have "x \<in> set u" if "x \<in> set (dropWhile c0_control_or_space (rev (dropWhile c0_control_or_space u)))" for x
  proof -
    from that have "x \<in> set (rev (dropWhile c0_control_or_space u))" by (rule set_dropWhileD)
    then have "x \<in> set (dropWhile c0_control_or_space u)" by simp
    then show ?thesis by (rule set_dropWhileD)
  qed
  then show ?thesis by (auto simp: url_input_def)
qed

lemma validateUrl_trim_nonempty:
  assumes "validateUrl A u"
  shows "js_trim u \<noteq> []"
proof -
  from assms have "has_scheme (url_input u)"
    by (auto simp: validateUrl_def basic_url_parser_def scheme_start_state_eq
        split: option.splits if_splits)
  then obtain c cs where "url_input u = c # cs" "ascii_alpha c"
    by (cases "url_input u") (auto simp: has_scheme_def Let_def split: if_splits)
  then have "c \<in> set u" "\<not> js_whitespace c"
    using set_url_input[of u] by (auto dest: alpha_not_ws)
  then show ?thesis by (rule js_trim_nonempty)
qed

lemma find_append_new:
  "\<forall>x \<in> set xs. \<not> P x \<Longrightarrow> P y \<Longrightarrow> find P (xs @ [y]) = Some y"
  by (induction xs) auto

lemma persist_calls: "calls (snd (persist cfg dr m ps u slug w)) = calls w @ [Save]"
  by (simp add: persist_def save_new_def logcall_def Let_def split: dberror.splits)

lemma persist_created:
  assumes "fst (persist cfg dr m ps u slug w) = Json st (Created cd l)"
  shows "cd_shortSlug cd = slug \<and>
         coll (snd (persist cfg dr m ps u slug w)) =
           coll w @ [new_Url dr u slug (or_empty (p_title ps)) (or_empty (p_desc ps))] \<and>
         valid_doc (new_Url dr u slug (or_empty (p_title ps)) (or_empty (p_desc ps))) \<and>
         st = (if m = GET then 200 else 201)"
  using assms
  by (auto simp: persist_def save_new_def logcall_def Let_def split: dberror.splits if_splits)

lemma persist_fresh:
  assumes "js_trim u \<noteq> []" "js_trim slug \<noteq> []" "new_id dr \<notin> doc_id ` set (coll w)"
    "js_trim slug \<notin> shortSlug ` set (coll w)"
  shows "\<exists>cd l. fst (persist cfg dr m ps u slug w) = Json (if m = GET then 200 else 201) (Created cd l)"
  using assms
  by (auto simp: persist_def save_new_def logcall_def Let_def new_Url_def valid_doc_def)

lemma persist_slug_param:
  "persist cfg dr m (ps\<lparr>p_slug := x\<rparr>) u slug w = persist cfg dr m ps u slug w"
  by (simp add: persist_def Let_def split: prod.splits sum.splits dberror.splits)

lemma new_handler_generated:
  assumes url: "truthy (p_url ps) = Some u" "validateUrl (url_authority dr) u"
    and noslug: "truthy (p_slug ps) = None"
  shows "new_handler cfg dr m ps w =
     (case gen_loop dr False 0 (or_empty (p_slug ps)) w of
        (isUnique, attempts, shortSlug', w1) \<Rightarrow>
          if \<not> isUnique
          then (Json 500 (Failure ''Failed to generate unique slug, please try again''), w1)
          else persist cfg dr m ps u shortSlug' w1)"
  using assms by (simp add: new_handler_def)

section \<open>Creation with a custom slug\<close>

text \<open>
  C2 (as amended). For every non-empty string \<open>s\<close> given as the slug parameter of a
  creation request, if \<open>s\<close> does not match \<open>^[a-zA-Z0-9_-]{3,50}$\<close> the request is
  answered 400 and the state is as it was: no storage call is made and no record is
  inserted. The URL is checked before the slug: with no URL, or an empty one, the answer
  is the missing-URL error of the method; with a URL that the validator rejects it is
  \<open>Invalid URL format\<close>; and with a valid URL it is the slug format error. An empty
  slug parameter counts as none given: the request is handled as the same request
  without a slug parameter, on the generated path.
\<close>

theorem invalid_custom_slug_rejected:
  assumes "p_slug ps = Some s" "s \<noteq> []" "\<not> validateSlug s"
  shows "status (fst (new_handler cfg dr m ps w)) = 400 \<and>
         snd (new_handler cfg dr m ps w) = w \<and>
         (truthy (p_url ps) = None \<longrightarrow>
            fst (new_handler cfg dr m ps w) =
              Json 400 (Failure (if m = GET then ''URL parameter is required''
                                 else ''URL is required''))) \<and>
         (truthy (p_url ps) = Some u \<and> \<not> validateUrl (url_authority dr) u \<longrightarrow>
            fst (new_handler cfg dr m ps w) = Json 400 (Failure ''Invalid URL format'')) \<and>
         (truthy (p_url ps) = Some u \<and> validateUrl (url_authority dr) u \<longrightarrow>
            fst (new_handler cfg dr m ps w) =
              Json 400 (Failure
                ''Slug can only contain letters, numbers, hyphens, and underscores (3-50 characters)'')) \<and>
         new_handler cfg dr m (ps\<lparr>p_slug := Some []\<rparr>) w =
           new_handler cfg dr m (ps\<lparr>p_slug := None\<rparr>) w \<and>
         (truthy (p_url ps) = Some u \<and> validateUrl (url_authority dr) u \<longrightarrow>
            new_handler cfg dr m (ps\<lparr>p_slug := Some []\<rparr>) w =
              (case gen_loop dr False 0 [] w of
                 (isUnique, attempts, shortSlug', w1) \<Rightarrow>
                   if \<not> isUnique
                   then (Json 500 (Failure
                     ''Failed to generate unique slug, please try again''), w1)
                   else persist cfg dr m (ps\<lparr>p_slug := Some []\<rparr>) u shortSlug' w1))"
proof -
  have a: "status (fst (new_handler cfg dr m ps w)) = 400 \<and> snd (new_handler cfg dr m ps w) = w"
    using assms by (auto simp: new_handler_def split: option.splits)
  have b: "truthy (p_url ps) = None \<longrightarrow>
            fst (new_handler cfg dr m ps w) =
              Json 400 (Failure (if m = GET then ''URL parameter is required''
                                 else ''URL is required''))"
    by (simp add: new_handler_def)
  have c: "truthy (p_url ps) = Some u \<and> \<not> validateUrl (url_authority dr) u \<longrightarrow>
            fst (new_handler cfg dr m ps w) = Json 400 (Failure ''Invalid URL format'')"
    by (simp add: new_handler_def)
  have d: "truthy (p_url ps) = Some u \<and> validateUrl (url_authority dr) u \<longrightarrow>
            fst (new_handler cfg dr m ps w) =
              Json 400 (Failure
                ''Slug can only contain letters, numbers, hyphens, and underscores (3-50 characters)'')"
    using assms by (simp add: new_handler_def)
  have e: "new_handler cfg dr m (ps\<lparr>p_slug := Some []\<rparr>) w =
           new_handler cfg dr m (ps\<lparr>p_slug := None\<rparr>) w"
    by (simp add: new_handler_def persist_slug_param split: option.splits prod.splits)
  have f: "truthy (p_url ps) = Some u \<and> validateUrl (url_authority dr) u \<longrightarrow>
            new_handler cfg dr m (ps\<lparr>p_slug := Some []\<rparr>) w =
              (case gen_loop dr False 0 [] w of
                 (isUnique, attempts, shortSlug', w1) \<Rightarrow>
                   if \<not> isUnique
                   then (Json 500 (Failure
                     ''Failed to generate unique slug, please try again''), w1)
                   else persist cfg dr m (ps\<lparr>p_slug := Some []\<rparr>) u shortSlug' w1)"
    by (simp add: new_handler_def)
  from a b c d e f show ?thesis by blast
qed

theorem invalid_custom_slug_rejected_witness:
  "fst (new_handler ex_config ex_draw GET
      (ex_new (Some ''https://example.org/x'') (Some ''has space'')) ex_world) =
     Json 400 (Failure
       ''Slug can only contain letters, numbers, hyphens, and underscores (3-50 characters)'') \<and>
   snd (new_handler ex_config ex_draw GET
      (ex_new (Some ''https://example.org/x'') (Some ''has space'')) ex_world) = ex_world \<and>
   new_handler ex_config ex_draw POST (ex_new (Some ''nonsense'') (Some ''ab'')) ex_world =
     (Json 400 (Failure ''Invalid URL format''), ex_world) \<and>
   new_handler ex_config ex_draw POST (ex_new None (Some ''ab'')) ex_world =
     (Json 400 (Failure ''URL is required''), ex_world) \<and>
   new_handler ex_config ex_draw GET (ex_new (Some []) (Some ''ab'')) ex_world =
     (Json 400 (Failure ''URL parameter is required''), ex_world) \<and>
   new_handler ex_config ex_draw GET (ex_new (Some ''https://example.org/x'') (Some [])) ex_world =
     new_handler ex_config ex_draw GET (ex_new (Some ''https://example.org/x'') None) ex_world"
proof -
  have v: "validateUrl (url_authority ex_draw) ''https://example.org/x''"
    and n: "\<not> validateUrl (url_authority ex_draw) ''nonsense''" by code_simp+
  have s1: "\<not> validateSlug ''has space''" and s2: "\<not> validateSlug ''ab''" by code_simp+
  note T = invalid_custom_slug_rejected[where dr = ex_draw and cfg = ex_config and w = ex_world]
  have a: "fst (new_handler ex_config ex_draw GET
      (ex_new (Some ''https://example.org/x'') (Some ''has space'')) ex_world) =
     Json 400 (Failure
       ''Slug can only contain letters, numbers, hyphens, and underscores (3-50 characters)'') \<and>
   snd (new_handler ex_config ex_draw GET
      (ex_new (Some ''https://example.org/x'') (Some ''has space'')) ex_world) = ex_world"
    using T[where ps = "ex_new (Some ''https://example.org/x'') (Some ''has space'')"
        and s = "''has space''" and u = "''https://example.org/x''" and m = GET] v s1
    by (simp add: ex_new_def)
  have b: "new_handler ex_config ex_draw POST (ex_new (Some ''nonsense'') (Some ''ab'')) ex_world =
     (Json 400 (Failure ''Invalid URL format''), ex_world)"
    using T[where ps = "ex_new (Some ''nonsense'') (Some ''ab'')"
        and s = "''ab''" and u = "''nonsense''" and m = POST] n s2
    by (simp add: ex_new_def prod_eq_iff)
  have c: "new_handler ex_config ex_draw POST (ex_new None (Some ''ab'')) ex_world =
     (Json 400 (Failure ''URL is required''), ex_world)"
    using T[where ps = "ex_new None (Some ''ab'')" and s = "''ab''" and m = POST] s2
    by (simp add: ex_new_def prod_eq_iff)
  have d: "new_handler ex_config ex_draw GET (ex_new (Some []) (Some ''ab'')) ex_world =
     (Json 400 (Failure ''URL parameter is required''), ex_world)"
    using T[where ps = "ex_new (Some []) (Some ''ab'')" and s = "''ab''" and m = GET] s2
    by (simp add: ex_new_def prod_eq_iff)
  have e: "new_handler ex_config ex_draw GET (ex_new (Some ''https://example.org/x'') (Some [])) ex_world =
     new_handler ex_config ex_draw GET (ex_new (Some ''https://example.org/x'') None) ex_world"
    using T[where ps = "ex_new (Some ''https://example.org/x'') (Some ''ab'')" and s = "''ab''"
        and m = GET] s2
    by (simp add: ex_new_def)
  from a b c d e show ?thesis by blast
qed

text \<open>
  The claim as stated fails at the empty string, which does not match the pattern: the
  request takes the generated path, is answered 200 and inserts a record. It also fails
  for \<open>ab\<close> in a request without a URL, which is answered with the missing-URL error.
\<close>

theorem invalid_custom_slug_counterexample:
  "\<not> validateSlug [] \<and>
   status (fst (new_handler ex_config ex_draw GET
      (ex_new (Some ''https://example.org/x'') (Some [])) ex_world)) = 200 \<and>
   map shortSlug (coll (snd (new_handler ex_config ex_draw GET
      (ex_new (Some ''https://example.org/x'') (Some [])) ex_world))) =
     [''my-link'', ''other'', ''third'', ''useando''] \<and>
   \<not> validateSlug ''ab'' \<and>
   fst (new_handler ex_config ex_draw GET (ex_new None (Some ''ab'')) ex_world) =
     Json 400 (Failure ''URL parameter is required'')"
  by code_simp

section \<open>Creation with a generated slug\<close>

text \<open>
  C4. For a creation request with a present, valid URL \<open>u\<close> and no custom slug, where
  each value of \<open>Math.random()\<close> lies in \<open>[0, 1)\<close>: the request makes between one and
  five existence checks (\<open>findOne\<close>), followed by at most one \<open>save\<close>. If the answer is
  a success, its slug has a length from 5 to 8, consists of symbols of the URL-safe
  alphabet (all in \<open>[A-Za-z0-9_-]\<close>), the collection has grown by exactly the new record
  with that slug, and a redirect on that slug in the resulting state answers 301 with the
  stored URL. If all five generated slugs are taken, the answer is 500 and the collection
  is unchanged. If one of the five is free and the new \<open>_id\<close> is fresh, the answer is a
  success.
\<close>

theorem generated_slug_creation:
  assumes url: "truthy (p_url ps) = Some u" "validateUrl (url_authority dr) u"
    and noslug: "truthy (p_slug ps) = None"
    and rnd: "\<forall>k<5. 0 \<le> random dr k \<and> random dr k < 1"
  shows "(\<exists>n. 1 \<le> n \<and> n \<le> 5 \<and>
            (calls (snd (new_handler cfg dr m ps w)) = calls w @ replicate n FindOne \<or>
             calls (snd (new_handler cfg dr m ps w)) = calls w @ replicate n FindOne @ [Save])) \<and>
         (fst (new_handler cfg dr m ps w) = Json st (Created cd l) \<longrightarrow>
            5 \<le> length (cd_shortSlug cd) \<and> length (cd_shortSlug cd) \<le> 8 \<and>
            set (cd_shortSlug cd) \<subseteq> set urlAlphabet \<and> list_all slug_class (cd_shortSlug cd) \<and>
            coll (snd (new_handler cfg dr m ps w)) =
              coll w @ [new_Url dr u (cd_shortSlug cd) (or_empty (p_title ps)) (or_empty (p_desc ps))] \<and>
            shortSlug (last (coll (snd (new_handler cfg dr m ps w)))) = cd_shortSlug cd \<and>
            fst (get_r (cd_shortSlug cd) (snd (new_handler cfg dr m ps w))) =
              Redirect 301 (js_trim u)) \<and>
         ((\<forall>k<5. attempt_slug dr k \<in> shortSlug ` set (coll w)) \<longrightarrow>
            fst (new_handler cfg dr m ps w) =
              Json 500 (Failure ''Failed to generate unique slug, please try again'') \<and>
            coll (snd (new_handler cfg dr m ps w)) = coll w) \<and>
         ((\<exists>k<5. attempt_slug dr k \<notin> shortSlug ` set (coll w)) \<and>
          new_id dr \<notin> doc_id ` set (coll w) \<longrightarrow>
            (\<exists>cd' l'. fst (new_handler cfg dr m ps w) =
               Json (if m = GET then 200 else 201) (Created cd' l')))"
proof -
  obtain isU att sl w1 where g: "gen_loop dr False 0 (or_empty (p_slug ps)) w = (isU, att, sl, w1)"
    by (metis prod_cases4)
  note spec = gen_loop_spec[OF g]
  have cw: "coll w1 = coll w" and cc: "calls w1 = calls w @ replicate att FindOne"
    and att: "1 \<le> att" "att \<le> 5"
    using spec by auto
  have new: "isU \<longrightarrow> sl = attempt_slug dr (att - 1) \<and> sl \<notin> shortSlug ` set (coll w)"
    using spec by (auto simp: attempt_slug_def)
  have sl_eq: "sl = attempt_slug dr (att - 1)" and sl_new: "sl \<notin> shortSlug ` set (coll w)" if isU
    using new that by blast+
  have all: "\<not> isU \<longrightarrow> (\<forall>k<5. attempt_slug dr k \<in> shortSlug ` set (coll w))"
    using spec by (auto simp: attempt_slug_def)
  have nh: "new_handler cfg dr m ps w =
      (if \<not> isU then (Json 500 (Failure ''Failed to generate unique slug, please try again''), w1)
       else persist cfg dr m ps u sl w1)"
    by (simp add: new_handler_generated[OF url noslug] g)
  have good: "5 \<le> length sl \<and> length sl \<le> 8 \<and> set sl \<subseteq> set urlAlphabet \<and> list_all slug_class sl"
    if "isU"
  proof -
    note sl = sl_eq[OF that]
    from att have "att - 1 < 5" by simp
    with rnd have "0 \<le> random dr (att - 1)" "random dr (att - 1) < 1" by auto
    then show ?thesis
      using generateSlug_length[of "random dr (att - 1)" "pool_of dr (att - 1)"]
      by (simp add: sl attempt_slug_def generateSlug_def nanoid_class nanoid_alphabet)
  qed
  have trim_sl: "js_trim sl = sl" if "isU"
  proof (rule js_trim_id)
    from good[OF that] have "list_all slug_class sl" by simp
    then show "list_all (\<lambda>c. \<not> js_whitespace c) sl"
      by (auto simp: list_all_iff dest: slug_class_not_ws)
  qed
  have p1: "\<exists>n. 1 \<le> n \<and> n \<le> 5 \<and>
            (calls (snd (new_handler cfg dr m ps w)) = calls w @ replicate n FindOne \<or>
             calls (snd (new_handler cfg dr m ps w)) = calls w @ replicate n FindOne @ [Save])"
  proof (cases isU)
    case True
    then have "calls (snd (new_handler cfg dr m ps w)) = calls w @ replicate att FindOne @ [Save]"
      by (simp add: nh persist_calls cc)
    with att show ?thesis by blast
  next
    case False
    then have "calls (snd (new_handler cfg dr m ps w)) = calls w @ replicate att FindOne"
      by (simp add: nh cc)
    with att show ?thesis by blast
  qed
  have p2: "5 \<le> length (cd_shortSlug cd) \<and> length (cd_shortSlug cd) \<le> 8 \<and>
            set (cd_shortSlug cd) \<subseteq> set urlAlphabet \<and> list_all slug_class (cd_shortSlug cd) \<and>
            coll (snd (new_handler cfg dr m ps w)) =
              coll w @ [new_Url dr u (cd_shortSlug cd) (or_empty (p_title ps)) (or_empty (p_desc ps))] \<and>
            shortSlug (last (coll (snd (new_handler cfg dr m ps w)))) = cd_shortSlug cd \<and>
            fst (get_r (cd_shortSlug cd) (snd (new_handler cfg dr m ps w))) =
              Redirect 301 (js_trim u)"
    if ok: "fst (new_handler cfg dr m ps w) = Json st (Created cd l)"
  proof -
    from ok have isU: isU by (cases isU) (simp_all add: nh)
    with ok have pc: "fst (persist cfg dr m ps u sl w1) = Json st (Created cd l)"
      by (simp add: nh)
    note c = persist_created[OF pc]
    define nd where "nd = new_Url dr u sl (or_empty (p_title ps)) (or_empty (p_desc ps))"
    from c have eq: "cd_shortSlug cd = sl"
      and co: "coll (snd (new_handler cfg dr m ps w)) = coll w @ [nd]"
      using isU by (simp_all add: nh cw nd_def)
    have nds: "shortSlug nd = sl" "isActive nd" "originalUrl nd = js_trim u"
      using trim_sl[OF isU] by (simp_all add: nd_def new_Url_def)
    from c have ndv: "valid_doc nd" by (simp add: nd_def)
    from sl_new[OF isU] have "\<forall>x \<in> set (coll w). \<not> (shortSlug x = sl \<and> isActive x)" by blast
    then have "find (\<lambda>x. shortSlug x = sl \<and> isActive x) (coll w @ [nd]) = Some nd"
      by (rule find_append_new) (simp add: nds)
    then have "fst (get_r sl (snd (new_handler cfg dr m ps w))) = Redirect 301 (js_trim u)"
      using get_r_found[of sl "snd (new_handler cfg dr m ps w)" nd] ndv
      by (simp add: co nds trim_sl[OF isU])
    with good[OF isU] eq co nds show ?thesis by (simp add: nd_def)
  qed
  have p3: "fst (new_handler cfg dr m ps w) =
              Json 500 (Failure ''Failed to generate unique slug, please try again'') \<and>
            coll (snd (new_handler cfg dr m ps w)) = coll w"
    if taken: "\<forall>k<5. attempt_slug dr k \<in> shortSlug ` set (coll w)"
  proof -
    have "\<not> isU"
    proof
      assume isU
      then have "attempt_slug dr (att - 1) \<notin> shortSlug ` set (coll w)"
        using sl_eq sl_new by simp
      moreover from att have "att - 1 < 5" by simp
      ultimately show False using taken by blast
    qed
    then show ?thesis by (simp add: nh cw)
  qed
  have p4: "\<exists>cd' l'. fst (new_handler cfg dr m ps w) =
               Json (if m = GET then 200 else 201) (Created cd' l')"
    if free: "\<exists>k<5. attempt_slug dr k \<notin> shortSlug ` set (coll w)"
      and fresh: "new_id dr \<notin> doc_id ` set (coll w)"
  proof -
    from free all have isU: isU by blast
    have "js_trim u \<noteq> []" using url(2) by (rule validateUrl_trim_nonempty)
    moreover have "js_trim sl \<noteq> []" using good[OF isU] trim_sl[OF isU] by auto
    moreover have "js_trim sl \<notin> shortSlug ` set (coll w1)"
      using sl_new[OF isU] trim_sl[OF isU] cw by simp
    moreover have "new_id dr \<notin> doc_id ` set (coll w1)" using fresh cw by simp
    ultimately show ?thesis using persist_fresh[of u sl dr w1 cfg m ps] isU by (simp add: nh)
  qed
  from p1 p2 p3 p4 show ?thesis by blast
qed

theorem generated_slug_creation_witness:
  "fst (new_handler ex_config ex_draw GET (ex_new (Some ''https://example.org/x'') None) ex_world) =
     Json 200 (Created
       \<lparr>cd_originalUrl = ''https://example.org/x'',
        cd_shortUrl = ''http://localhost:4056/r/useando'', cd_shortSlug = ''useando'',
        cd_title = [], cd_description = [], cd_createdAt = 100\<rparr>
       (Some \<lparr>cl_access = ''http://localhost:4056/r/useando'',
              cl_delete = ''http://localhost:4056/delete.html?slug=useando'',
              cl_stats = ''http://localhost:4056/stats/useando''\<rparr>)) \<and>
   fst (get_r ''useando''
      (snd (new_handler ex_config ex_draw GET (ex_new (Some ''https://example.org/x'') None) ex_world))) =
     Redirect 301 ''https://example.org/x'' \<and>
   fst (new_handler ex_config ex_draw_stuck GET (ex_new (Some ''https://example.org/x'') None)
      ex_world_stuck) =
     Json 500 (Failure ''Failed to generate unique slug, please try again'') \<and>
   coll (snd (new_handler ex_config ex_draw_stuck GET (ex_new (Some ''https://example.org/x'') None)
      ex_world_stuck)) = coll ex_world_stuck"
proof -
  have v: "validateUrl (url_authority ex_draw) ''https://example.org/x''"
    "validateUrl (url_authority ex_draw_stuck) ''https://example.org/x''" by code_simp+
  have r: "\<forall>k<5. 0 \<le> random ex_draw k \<and> random ex_draw k < 1"
    "\<forall>k<5. 0 \<le> random ex_draw_stuck k \<and> random ex_draw_stuck k < 1"
    by (simp_all add: ex_draw_def ex_draw_stuck_def)
  have t: "truthy (p_url (ex_new (Some ''https://example.org/x'') None)) = Some ''https://example.org/x''"
    "truthy (p_slug (ex_new (Some ''https://example.org/x'') None)) = None"
    by (simp_all add: ex_new_def)
  have ev: "fst (new_handler ex_config ex_draw GET (ex_new (Some ''https://example.org/x'') None) ex_world) =
     Json 200 (Created
       \<lparr>cd_originalUrl = ''https://example.org/x'',
        cd_shortUrl = ''http://localhost:4056/r/useando'', cd_shortSlug = ''useando'',
        cd_title = [], cd_description = [], cd_createdAt = 100\<rparr>
       (Some \<lparr>cl_access = ''http://localhost:4056/r/useando'',
              cl_delete = ''http://localhost:4056/delete.html?slug=useando'',
              cl_stats = ''http://localhost:4056/stats/useando''\<rparr>))"
    by code_simp
  have tr: "js_trim ''https://example.org/x'' = ''https://example.org/x''" by code_simp
  have stuck: "attempt_slug ex_draw_stuck k = ''useando''" for k
    by (simp add: attempt_slug_def ex_draw_stuck_def ex_draw_def generateSlug_def nanoid_def
        urlAlphabet_def upt_rec)
  have all: "\<forall>k<5. attempt_slug ex_draw_stuck k \<in> shortSlug ` set (coll ex_world_stuck)"
    by (simp add: stuck ex_world_stuck_def ex_doc4_def)
  let ?cd = "\<lparr>cd_originalUrl = ''https://example.org/x'',
        cd_shortUrl = ''http://localhost:4056/r/useando'', cd_shortSlug = ''useando'',
        cd_title = [], cd_description = [], cd_createdAt = 100\<rparr>"
  let ?l = "Some \<lparr>cl_access = ''http://localhost:4056/r/useando'',
              cl_delete = ''http://localhost:4056/delete.html?slug=useando'',
              cl_stats = ''http://localhost:4056/stats/useando''\<rparr>"
  note g1 = generated_slug_creation[OF t(1) v(1) t(2) r(1), where cfg = ex_config and m = GET
      and w = ex_world and st = 200 and cd = ?cd and l = ?l]
  note g2 = generated_slug_creation[OF t(1) v(2) t(2) r(2), where cfg = ex_config and m = GET
      and w = ex_world_stuck]
  show ?thesis using g1 g2 ev all tr by simp
qed

section \<open>Facts about the admin listing\<close>













section \<open>Search in the admin listing\<close>




section \<open>Access to the admin listing and its pages\<close>




section \<open>What no request undoes\<close>





















subsection \<open>Requests that overlap\<close>






















section \<open>Counting redirects\<close>

lemma ndone_update:
  "i < length fs \<Longrightarrow>
   ndone (fs[i := f]) + (if is_done (fs ! i) then 1 else 0) = ndone fs + (if is_done f then 1 else 0)"
proof (induction fs arbitrary: i)
  case Nil
  then show ?case by simp
next
  case (Cons a fs)
  show ?case
  proof (cases i)
    case 0
    then show ?thesis by (simp add: ndone_def)
  next
    case (Suc j)
    with Cons.prems have "j < length fs" by simp
    from Cons.IH[OF this] Suc show ?thesis by (simp add: ndone_def)
  qed
qed

lemma flight_ok_mono: "flight_ok s id0 v0 n f \<Longrightarrow> n \<le> n' \<Longrightarrow> flight_ok s id0 v0 n' f"
  by (cases f) auto

lemma list_all_update:
  "list_all P fs \<Longrightarrow> P f \<Longrightarrow> list_all P (fs[i := f])"
  by (auto simp: list_all_iff dest: set_update_subset_insert[THEN subsetD])

lemma find_map_same:
  assumes "\<And>y. P (g y) = P y"
  shows "find P (map g ds) = map_option g (find P ds)"
  using assms by (induction ds) auto

lemma overlap_step:
  assumes inv: "overlap_inv s id0 v0 fs w" and i: "i < length fs"
    and st: "r_step (fs ! i) w = (f, w1)"
  shows "overlap_inv s id0 v0 (fs[i := f]) w1"
proof -
  from inv obtain d where wf: "wf_store (coll w)"
    and fd: "find (\<lambda>x. shortSlug x = s \<and> isActive x) (coll w) = Some d"
    and d: "doc_id d = id0" "v0 \<le> visits d" "visits d \<le> v0 + ndone fs"
      "0 < ndone fs \<longrightarrow> v0 < visits d"
    and ok: "list_all (flight_ok s id0 v0 (ndone fs)) fs"
    by (auto simp: overlap_inv_def)
  from ok i have oki: "flight_ok s id0 v0 (ndone fs) (fs ! i)" by (simp add: list_all_length)
  show ?thesis
  proof (cases "fs ! i")
    case (Arrived s')
    with oki have s': "s' = s" by simp
    from fd have "d \<in> set (coll w)" "shortSlug d = s" by (auto simp: find_Some_iff)
    with wf have tr: "js_trim s = s" using wf_store_trimmed[of "coll w" d] by simp
    from st Arrived s' fd have f: "f = Loaded d" and w1: "w1 = logcall FindOne w"
      by (simp_all add: findOne_def tr)
    have nd: "ndone (fs[i := f]) = ndone fs"
      using ndone_update[OF i, of f] Arrived f by simp
    from fd have "d \<in> set (coll w)" by (auto simp: find_Some_iff)
    with wf have "valid_doc d" by (rule wf_store_valid)
    then have "flight_ok s id0 v0 (ndone fs) f" using f d by simp
    with ok have "list_all (flight_ok s id0 v0 (ndone fs)) (fs[i := f])" by (rule list_all_update)
    then show ?thesis using wf fd d
      by (auto simp: overlap_inv_def nd w1 logcall_def)
  next
    case (Loaded x)
    with oki have x: "doc_id x = id0" "v0 \<le> visits x" "visits x \<le> v0 + ndone fs"
      and vx: "valid_doc x" by simp_all
    from vx have vx': "valid_doc (x\<lparr>visits := visits x + 1\<rparr>)" by (simp add: valid_doc_def)
    define g :: "doc \<Rightarrow> doc"
      where "g = (\<lambda>y. if doc_id y = doc_id x then y\<lparr>visits := visits x + 1\<rparr> else y)"
    from st Loaded have f: "f = Done (Redirect 301 (originalUrl x))"
      and w1: "coll w1 = map g (coll w)"
      using vx' by (auto simp: save_loaded_valid write_loaded_def logcall_def g_def Let_def)
    have nd: "ndone (fs[i := f]) = ndone fs + 1"
      using ndone_update[OF i, of f] Loaded f by simp
    have wf1: "wf_store (coll w1)"
      unfolding w1 using wf by (rule wf_store_map) (simp_all add: g_def)
    have "find (\<lambda>x. shortSlug x = s \<and> isActive x) (map g (coll w)) =
        map_option g (find (\<lambda>x. shortSlug x = s \<and> isActive x) (coll w))"
      by (rule find_map_same) (simp add: g_def)
    then have fd1: "find (\<lambda>x. shortSlug x = s \<and> isActive x) (coll w1) = Some (g d)"
      by (simp add: w1 fd)
    have gd: "doc_id (g d) = id0" "visits (g d) = visits x + 1"
      using d(1) x(1) by (simp_all add: g_def)
    have "list_all (flight_ok s id0 v0 (ndone fs + 1)) fs"
      using ok by (auto simp: list_all_iff intro: flight_ok_mono)
    moreover have "flight_ok s id0 v0 (ndone fs + 1) f" by (simp add: f)
    ultimately have "list_all (flight_ok s id0 v0 (ndone fs + 1)) (fs[i := f])"
      by (rule list_all_update)
    then show ?thesis using wf1 fd1 gd x
      by (auto simp: overlap_inv_def nd)
  next
    case (Done r)
    with st have "f = fs ! i" "w1 = w" by simp_all
    then show ?thesis using inv by simp
  qed
qed

lemma interleave_inv:
  "overlap_inv s id0 v0 fs w \<Longrightarrow> interleave sched (fs, w) = (fs', w') \<Longrightarrow>
   overlap_inv s id0 v0 fs' w' \<and> length fs' = length fs"
proof (induction sched arbitrary: fs w)
  case Nil
  then show ?case by simp
next
  case (Cons i sched)
  show ?case
  proof (cases "i < length fs")
    case False
    with Cons.prems(2) have "interleave sched (fs, w) = (fs', w')" by simp
    from Cons.IH[OF Cons.prems(1) this] show ?thesis .
  next
    case True
    obtain f w1 where st: "r_step (fs ! i) w = (f, w1)" by (cases "r_step (fs ! i) w")
    with True Cons.prems(2) have run: "interleave sched (fs[i := f], w1) = (fs', w')" by simp
    from Cons.IH[OF overlap_step[OF Cons.prems(1) True st] run] show ?thesis by simp
  qed
qed

lemma serve_redirects:
  assumes "wf_store (coll w)" "d \<in> set (coll w)" "shortSlug d = s" "isActive d"
  shows "visits_of s (coll (serve cfg srv (map (\<lambda>dr. (dr, R s)) drs) w)) =
           Some (visits d + length drs)"
  using assms
proof (induction drs arbitrary: w d)
  case Nil
  then show ?case using find_by_slug[of "coll w" d] by (auto simp: visits_of_def wf_store_def)
next
  case (Cons dr drs)
  define d' where "d' = d\<lparr>visits := visits d + 1\<rparr>"
  define w' where "w' = snd (get_r s w)"
  have c: "coll w' = map (\<lambda>x. if x = d then d' else x) (coll w)"
    unfolding w'_def d'_def using Cons.prems by (intro get_r_stored(2)) simp_all
  have wf': "wf_store (coll w')"
    unfolding c using Cons.prems(1) by (rule wf_store_map) (simp_all add: d'_def)
  have in': "d' \<in> set (coll w')" using Cons.prems(2) by (auto simp: c)
  have "visits_of s (coll (serve cfg srv (map (\<lambda>dr. (dr, R s)) drs) w')) =
           Some (visits d' + length drs)"
    using Cons.IH[OF wf' in'] Cons.prems by (simp add: d'_def)
  then show ?case by (simp add: handle_def w'_def d'_def)
qed

text \<open>
  C9 (as amended). In a well-formed collection with an active record \<open>d\<close>
  for \<open>s\<close>: the redirect handler is its \<open>findOne\<close> step followed by its \<open>save\<close> step;
  \<open>N\<close> redirects on \<open>s\<close> served one after another leave \<open>visits\<close> exactly \<open>N\<close> greater;
  and when \<open>n > 0\<close> redirects on \<open>s\<close> overlap in any schedule of their steps and all have
  finished, \<open>visits\<close> is greater than before by at least 1 and at most \<open>n\<close>. The
  increment is a read-modify-write of the application, so overlapping redirects may lose
  updates.
\<close>

theorem redirects_counted:
  assumes wf: "wf_store (coll w)" and d: "d \<in> set (coll w)" "shortSlug d = s" "isActive d"
  shows "interleave [0, 0] ([Arrived s], w) = ([Done (fst (get_r s w))], snd (get_r s w)) \<and>
         visits_of s (coll (serve cfg srv (map (\<lambda>dr. (dr, R s)) drs) w)) =
           Some (visits d + length drs) \<and>
         (interleave sched (replicate n (Arrived s), w) = (fs', w') \<and> list_all is_done fs' \<and>
          0 < n \<longrightarrow>
            (\<exists>v. visits_of s (coll w') = Some v \<and> visits d < v \<and> v \<le> visits d + n))"
proof (intro conjI impI)
  show "interleave [0, 0] ([Arrived s], w) = ([Done (fst (get_r s w))], snd (get_r s w))"
    by (rule redirect_in_two_steps)
  show "visits_of s (coll (serve cfg srv (map (\<lambda>dr. (dr, R s)) drs) w)) =
           Some (visits d + length drs)"
    using assms by (rule serve_redirects)
next
  assume h: "interleave sched (replicate n (Arrived s), w) = (fs', w') \<and> list_all is_done fs' \<and> 0 < n"
  have fd: "find (\<lambda>x. shortSlug x = s \<and> isActive x) (coll w) = Some d"
    using find_active_by_slug[of "coll w" d] wf d by (auto simp: wf_store_def)
  have n0: "ndone (replicate n (Arrived s)) = 0" by (simp add: ndone_def)
  have init: "overlap_inv s (doc_id d) (visits d) (replicate n (Arrived s)) w"
    using wf fd by (simp add: overlap_inv_def n0 list_all_iff)
  from interleave_inv[OF init, of sched fs' w'] h
  have inv: "overlap_inv s (doc_id d) (visits d) fs' w'" and len: "length fs' = n" by simp_all
  from h have "filter is_done fs' = fs'" by (simp add: list_all_iff)
  then have nd: "ndone fs' = n" using len by (simp add: ndone_def)
  from inv nd h obtain e where wf': "wf_store (coll w')"
    and fe: "find (\<lambda>x. shortSlug x = s \<and> isActive x) (coll w') = Some e"
    and e: "visits d < visits e" "visits e \<le> visits d + n"
    by (auto simp: overlap_inv_def)
  from fe have "e \<in> set (coll w')" "shortSlug e = s" by (auto simp: find_Some_iff)
  then have "find (\<lambda>x. shortSlug x = s) (coll w') = Some e"
    using find_by_slug[of "coll w'" e] wf' by (auto simp: wf_store_def)
  then show "\<exists>v. visits_of s (coll w') = Some v \<and> visits d < v \<and> v \<le> visits d + n"
    using e by (simp add: visits_of_def)
qed

theorem redirects_counted_witness:
  "visits_of ''my-link''
     (coll (serve ex_config sample_server
        (map (\<lambda>dr. (dr, R ''my-link'')) [ex_draw, ex_draw, ex_draw]) ex_world)) = Some 3 \<and>
   (\<exists>v. visits_of ''my-link''
          (coll (snd (interleave [0, 1, 1, 0] (replicate 2 (Arrived ''my-link''), ex_world)))) =
          Some v \<and> 0 < v \<and> v \<le> 2)"
proof -
  let ?X = "interleave [0, 1, 1, 0] (replicate 2 (Arrived ''my-link''), ex_world)"
  have d: "ex_doc1 \<in> set (coll ex_world)" "shortSlug ex_doc1 = ''my-link''" "isActive ex_doc1"
    "visits ex_doc1 = 0"
    by (simp_all add: ex_world_def ex_doc1_def)
  have fin: "list_all is_done (fst ?X)" by code_simp
  have run: "?X = (fst ?X, snd ?X)" by simp
  have pos: "0 < (2::nat)" by simp
  note T = redirects_counted[OF wf_ex_world d(1,2,3), where cfg = ex_config and srv = sample_server
        and drs = "[ex_draw, ex_draw, ex_draw]" and sched = "[0, 1, 1, 0]" and n = 2
        and fs' = "fst ?X" and w' = "snd ?X"]
  have three: "visits ex_doc1 + length [ex_draw, ex_draw, ex_draw] = 3" by (simp add: d(4))
  from T have "visits_of ''my-link''
     (coll (serve ex_config sample_server
        (map (\<lambda>dr. (dr, R ''my-link'')) [ex_draw, ex_draw, ex_draw]) ex_world)) =
      Some (visits ex_doc1 + length [ex_draw, ex_draw, ex_draw])" by blast
  then have seq: "visits_of ''my-link''
     (coll (serve ex_config sample_server
        (map (\<lambda>dr. (dr, R ''my-link'')) [ex_draw, ex_draw, ex_draw]) ex_world)) = Some 3"
    by (simp only: three)
  from T run fin pos obtain v where v: "visits_of ''my-link'' (coll (snd ?X)) = Some v"
    "visits ex_doc1 < v" "v \<le> visits ex_doc1 + 2" by blast
  from v(2,3) have "0 < v" "v \<le> 2" by (simp_all add: d(4))
  with seq v(1) show ?thesis by blast
qed

text \<open>
  The claim as stated fails for two redirects whose \<open>findOne\<close> steps both come before
  the two \<open>save\<close> steps: both answer 301 and \<open>visits\<close> goes from 0 to 1.
\<close>

theorem redirects_counted_counterexample:
  "visits_of ''my-link'' (coll ex_world) = Some 0 \<and>
   fst (interleave [0, 1, 0, 1] ([Arrived ''my-link'', Arrived ''my-link''], ex_world)) =
     [Done (Redirect 301 ''https://example.com''), Done (Redirect 301 ''https://example.com'')] \<and>
   visits_of ''my-link''
     (coll (snd (interleave [0, 1, 0, 1] ([Arrived ''my-link'', Arrived ''my-link''], ex_world)))) =
     Some 1"
  by code_simp

end
